theory Spec2Isabelle
  imports Main "HOL-Library.Word"
begin

section \<open>Python values, exceptions and strings\<close>

text \<open>
  The module \<^verbatim>\<open>src/transcription.py\<close> works on dynamically typed data: the configuration
  is a dictionary (or \<^verbatim>\<open>None\<close>), the remote response is a dictionary, the transcript is
  a string or \<^verbatim>\<open>None\<close>. \<open>pyval\<close> holds the values that occur; a dictionary is an
  association list with string keys. Floating-point values are left out.

  A Python string is a sequence of Unicode code points, here a list of natural numbers.
  The keys of the dictionaries, the status texts and the file names are literals of the
  module or are only compared with them; they are kept as \<open>string\<close>.
\<close>

type_synonym pystr = "nat list"

definition text_of :: "string \<Rightarrow> pystr" where
  "text_of s = map of_char s"

datatype pyval =
    PNone
  | PBool bool
  | PInt int
  | PStr pystr
  | PDict "(string \<times> pyval) list"

text \<open>
  The exceptions: the subclasses of \<^verbatim>\<open>Exception\<close> that the module itself can raise on
  these values; \<open>OtherError\<close> for any other subclass of \<^verbatim>\<open>Exception\<close> that a collaborator
  (sound device, voice-activity detector, file system, remote service, local model) raises;
  and the three exceptions that derive from \<^verbatim>\<open>BaseException\<close> only, which
  \<^verbatim>\<open>except Exception\<close> does not catch. An interrupt from the keyboard can arrive at
  any instruction; here it arrives where a collaborator is called, as that call raising
  \<open>KeyboardInterrupt\<close>.
\<close>

datatype exn =
    KeyError string
  | TypeError
  | AttributeError
  | UnboundLocalError
  | FileNotFoundError
  | OtherError string
  | KeyboardInterrupt
  | SystemExit
  | GeneratorExit

text \<open>\<^verbatim>\<open>isinstance(e, Exception)\<close>: what the handler on line 137 catches.\<close>

fun is_exception :: "exn \<Rightarrow> bool" where
  "is_exception KeyboardInterrupt = False"
| "is_exception SystemExit = False"
| "is_exception GeneratorExit = False"
| "is_exception _ = True"

text \<open>Truth value testing: \<^verbatim>\<open>if config:\<close>, \<^verbatim>\<open>if result\<close>, \<^verbatim>\<open>if config['use_api']:\<close>.\<close>

fun truthy :: "pyval \<Rightarrow> bool" where
  "truthy PNone = False"
| "truthy (PBool b) = b"
| "truthy (PInt i) = (i \<noteq> 0)"
| "truthy (PStr s) = (s \<noteq> [])"
| "truthy (PDict d) = (d \<noteq> [])"

text \<open>
  \<^verbatim>\<open>v[k]\<close> with a string key: a dictionary gives the value or raises \<^verbatim>\<open>KeyError\<close>; every
  other value of \<open>pyval\<close> raises \<^verbatim>\<open>TypeError\<close> (\<^verbatim>\<open>None\<close>, \<^verbatim>\<open>bool\<close> and \<^verbatim>\<open>int\<close>
  are not subscriptable, a \<^verbatim>\<open>str\<close> takes integer indices only).
\<close>

fun subscript :: "pyval \<Rightarrow> string \<Rightarrow> exn + pyval" where
  "subscript (PDict d) k = (case map_of d k of Some v \<Rightarrow> Inr v | None \<Rightarrow> Inl (KeyError k))"
| "subscript _ k = Inl TypeError"

text \<open>\<^verbatim>\<open>v.get(k)\<close>: a dictionary gives the value or \<^verbatim>\<open>None\<close>; nothing else has \<^verbatim>\<open>get\<close>.\<close>

fun py_get :: "pyval \<Rightarrow> string \<Rightarrow> exn + pyval" where
  "py_get (PDict d) k = (case map_of d k of Some v \<Rightarrow> Inr v | None \<Rightarrow> Inr PNone)"
| "py_get _ k = Inl AttributeError"

text \<open>
  An integer operand of \<^verbatim>\<open>x * frame_duration // 1000\<close> and \<^verbatim>\<open>x // frame_duration\<close>:
  \<^verbatim>\<open>bool\<close> is a subclass of \<^verbatim>\<open>int\<close>; \<^verbatim>\<open>None\<close> and a dictionary raise \<^verbatim>\<open>TypeError\<close>
  at once, a string at the \<^verbatim>\<open>//\<close> (its product with an \<^verbatim>\<open>int\<close> is a string again).
\<close>

fun as_int :: "pyval \<Rightarrow> exn + int" where
  "as_int (PInt i) = Inr i"
| "as_int (PBool b) = Inr (if b then 1 else 0)"
| "as_int _ = Inl TypeError"

text \<open>Sequencing of steps that may raise: the first exception ends the sequence.\<close>

fun bind :: "exn + 'a \<Rightarrow> ('a \<Rightarrow> exn + 'b) \<Rightarrow> exn + 'b" where
  "bind (Inl e) f = Inl e"
| "bind (Inr v) f = f v"

text \<open>
  \<^verbatim>\<open>str.lower()\<close>. For a text whose code points are all below 256 (Latin-1), Python
  maps each code point on its own: \<^verbatim>\<open>A\<close> to \<^verbatim>\<open>Z\<close> and the capital letters 192 to 222
  (without the multiplication sign 215) move up by 32, everything else stays. For any other
  text the result depends on the whole Unicode table and on the context of a letter (the
  final sigma); it is not modelled but taken as the parameter \<open>lower_beyond\<close>, which stands
  for what \<^verbatim>\<open>str.lower()\<close> returns there.
\<close>

definition lower_latin1 :: "nat \<Rightarrow> nat" where
  "lower_latin1 c =
     (if (65 \<le> c \<and> c \<le> 90) \<or> (192 \<le> c \<and> c \<le> 222 \<and> c \<noteq> 215) then c + 32 else c)"

definition str_lower :: "(pystr \<Rightarrow> pystr) \<Rightarrow> pystr \<Rightarrow> pystr" where
  "str_lower lower_beyond s =
     (if list_all (\<lambda>c. c < 256) s then map lower_latin1 s else lower_beyond s)"

text \<open>
  \<^verbatim>\<open>str.strip()\<close> removes leading and trailing white space: the code points for which
  \<^verbatim>\<open>str.isspace()\<close> holds, which are 9 to 13, 28 to 32, 133, 160, 5760, 8192 to 8202, 8232,
  8233, 8239, 8287 and 12288.
\<close>

definition is_space :: "nat \<Rightarrow> bool" where
  "is_space c =
     ((9 \<le> c \<and> c \<le> 13) \<or> (28 \<le> c \<and> c \<le> 32) \<or> c = 133 \<or> c = 160 \<or> c = 5760
      \<or> (8192 \<le> c \<and> c \<le> 8202) \<or> c = 8232 \<or> c = 8233 \<or> c = 8239 \<or> c = 8287
      \<or> c = 12288)"

definition strip :: "pystr \<Rightarrow> pystr" where
  "strip s = rev (dropWhile is_space (rev (dropWhile is_space s)))"

text \<open>\<^verbatim>\<open>s.endswith(c)\<close> for a single character \<open>c\<close>.\<close>

definition endswith :: "pystr \<Rightarrow> nat \<Rightarrow> bool" where
  "endswith s c = (s \<noteq> [] \<and> last s = c)"

section \<open>The post-processor\<close>

text \<open>
  \<^verbatim>\<open>process_transcription(transcription, config=None)\<close>, lines 16 to 25. With a falsy
  configuration the text is returned as it is; otherwise the three options are read in
  turn, each read raising when the key is missing.
\<close>

definition process_transcription :: "(pystr \<Rightarrow> pystr) \<Rightarrow> pystr \<Rightarrow> pyval \<Rightarrow> exn + pystr" where
  "process_transcription lower_beyond transcription config =
     (if truthy config then
        bind (subscript config ''remove_trailing_period'') (\<lambda>rtp.
          let t1 = (if truthy rtp \<and> endswith transcription 46
                    then butlast transcription else transcription) in
          bind (subscript config ''add_trailing_space'') (\<lambda>ats.
            let t2 = (if truthy ats then t1 @ [32] else t1) in
            bind (subscript config ''remove_capitalization'') (\<lambda>rc.
              let t3 = (if truthy rc then str_lower lower_beyond t2 else t2) in
              Inr t3)))
      else Inr transcription)"







section \<open>The recording loop\<close>

text \<open>
  Samples are 16-bit integers (the stream is opened with \<^verbatim>\<open>dtype='int16'\<close>). Python's
  integers are unbounded, so rates, durations and counters are of type \<open>int\<close>.
\<close>

type_synonym sample = "16 word"

definition frame_duration :: int where
  "frame_duration = 30"

definition buffer_duration :: int where
  "buffer_duration = 300"

text \<open>\<^verbatim>\<open>sample_rate * frame_duration // 1000\<close>, the block size and the length of a frame.\<close>

definition frame_size :: "int \<Rightarrow> int" where
  "frame_size sample_rate = sample_rate * frame_duration div 1000"

text \<open>Line 49: \<^verbatim>\<open>num_silence_frames = silence_duration // frame_duration\<close>.\<close>

definition num_silence_frames_of :: "int \<Rightarrow> int" where
  "num_silence_frames_of silence_duration = silence_duration div frame_duration"

text \<open>
  The slices \<^verbatim>\<open>xs[:n]\<close> and \<^verbatim>\<open>xs[n:]\<close>; a negative \<open>n\<close> counts from the end of the list.
\<close>

definition slice_to :: "int \<Rightarrow> 'a list \<Rightarrow> 'a list" where
  "slice_to n xs = (if 0 \<le> n then take (nat n) xs else take (length xs - nat (- n)) xs)"

definition slice_from :: "int \<Rightarrow> 'a list \<Rightarrow> 'a list" where
  "slice_from n xs = (if 0 \<le> n then drop (nat n) xs else drop (length xs - nat (- n)) xs)"

text \<open>The local variables that the loop updates.\<close>

record rec_state =
  buffer :: "sample list"
  recording :: "sample list"
  num_silent_frames :: int

definition init_state :: rec_state where
  "init_state = \<lparr>buffer = [], recording = [], num_silent_frames = 0\<rparr>"

text \<open>
  What the world does during one pass through the body of \<^verbatim>\<open>while True\<close>:
  \<^item> \<open>pushed\<close>: the samples which the capture callback has appended to \<^verbatim>\<open>buffer\<close>
    since the previous pass (the callback runs between passes);
  \<^item> \<open>vad_is_speech\<close>: what \<^verbatim>\<open>vad.is_speech\<close> answers or raises on this pass's frame (the
    detector keeps state between frames, so its answer is not a function of the frame);
  \<^item> \<open>cancel_flag_71\<close> and \<open>cancel_flag_74\<close>: what \<^verbatim>\<open>cancel_flag()\<close> answers when it is
    called on line 71 and on line 74.
\<close>

record poll =
  pushed :: "sample list"
  vad_is_speech :: "exn + bool"
  cancel_flag_71 :: bool
  cancel_flag_74 :: bool

datatype exit_reason = Unknown | Hotkey_pressed | Silence

text \<open>
  How a pass ends: at \<^verbatim>\<open>continue\<close> or the end of the body (\<open>Continue\<close>), at \<^verbatim>\<open>break\<close>
  with the exit reason and whether \<^verbatim>\<open>recording_thread.stop()\<close> was called (\<open>Break\<close>), or
  with an exception (\<open>Raise\<close>).
\<close>

datatype loop_status =
    Continue rec_state
  | Break rec_state exit_reason bool
  | Raise exn

text \<open>
  Lines 60 to 69: the frame is cut off the buffer and, according to its classification,
  appended to the recording or counted as silence.
\<close>

definition frame_update :: "int \<Rightarrow> rec_state \<Rightarrow> sample list \<Rightarrow> bool \<Rightarrow> rec_state" where
  "frame_update sample_rate st buf is_speech =
     (let frame = slice_to (frame_size sample_rate) buf;
          buf' = slice_from (frame_size sample_rate) buf
      in if is_speech then
           \<lparr>buffer = buf', recording = recording st @ frame, num_silent_frames = 0\<rparr>
         else if 0 < length (recording st) then
           \<lparr>buffer = buf', recording = recording st,
            num_silent_frames = num_silent_frames st + 1\<rparr>
         else
           \<lparr>buffer = buf', recording = recording st,
            num_silent_frames = num_silent_frames st\<rparr>)"

text \<open>
  Lines 71 to 80: the stop condition, the minimum length, the exit reason.
  \<open>recording_thread\<close> tells whether a thread handle was passed.
\<close>

definition stop_check :: "int \<Rightarrow> int \<Rightarrow> bool \<Rightarrow> poll \<Rightarrow> rec_state \<Rightarrow> loop_status" where
  "stop_check sample_rate num_silence_frames recording_thread p st =
     (if num_silence_frames \<le> num_silent_frames st \<or> cancel_flag_71 p then
        if int (length (recording st)) < sample_rate then Continue st
        else
          let exit_reason1 = (if cancel_flag_74 p then Hotkey_pressed else Unknown) in
          if num_silence_frames \<le> num_silent_frames st
          then Break st Silence recording_thread
          else Break st exit_reason1 False
      else Continue st)"

text \<open>Lines 57 to 80, one pass through the body of the loop.\<close>

definition step :: "int \<Rightarrow> int \<Rightarrow> bool \<Rightarrow> rec_state \<Rightarrow> poll \<Rightarrow> loop_status" where
  "step sample_rate num_silence_frames recording_thread st p =
     (let buf = buffer st @ pushed p in
      if int (length buf) < frame_size sample_rate then Continue (st\<lparr>buffer := buf\<rparr>)
      else
        case vad_is_speech p of
          Inl e \<Rightarrow> Raise e
        | Inr is_speech \<Rightarrow>
            stop_check sample_rate num_silence_frames recording_thread p
              (frame_update sample_rate st buf is_speech))"

text \<open>
  The loop over the passes the world provides. When they are used up and the loop has not
  been left, the result is \<open>Continue\<close> with the state reached: the loop is still running.
\<close>

fun loop :: "int \<Rightarrow> int \<Rightarrow> bool \<Rightarrow> rec_state \<Rightarrow> poll list \<Rightarrow> loop_status" where
  "loop sample_rate num_silence_frames recording_thread st [] = Continue st"
| "loop sample_rate num_silence_frames recording_thread st (p # ps) =
     (case step sample_rate num_silence_frames recording_thread st p of
        Continue st' \<Rightarrow> loop sample_rate num_silence_frames recording_thread st' ps
      | Break st' reason stopped \<Rightarrow> Break st' reason stopped
      | Raise e \<Rightarrow> Raise e)"

text \<open>The passes the loop makes: all of them, or those up to the one that leaves it.\<close>

fun consumed :: "int \<Rightarrow> int \<Rightarrow> bool \<Rightarrow> rec_state \<Rightarrow> poll list \<Rightarrow> poll list" where
  "consumed sample_rate num_silence_frames recording_thread st [] = []"
| "consumed sample_rate num_silence_frames recording_thread st (p # ps) =
     p # (case step sample_rate num_silence_frames recording_thread st p of
            Continue st' \<Rightarrow> consumed sample_rate num_silence_frames recording_thread st' ps
          | Break st' reason stopped \<Rightarrow> []
          | Raise e \<Rightarrow> [])"

subsection \<open>The frames and their classification, as the specification speaks of them\<close>

text \<open>
  The specification speaks of the sequence of frames, each classified as speech or
  non-speech, and of the run of non-speech frames since the last speech frame. \<open>feed\<close> cuts
  the frames off the sample stream without any of the loop's bookkeeping: it keeps the
  samples not yet framed and the frames classified so far, oldest first.
\<close>

definition feed :: "int \<Rightarrow> sample list \<times> (sample list \<times> bool) list \<Rightarrow> poll
    \<Rightarrow> sample list \<times> (sample list \<times> bool) list" where
  "feed sample_rate acc p =
     (let buf = fst acc @ pushed p in
      if int (length buf) < frame_size sample_rate then (buf, snd acc)
      else case vad_is_speech p of
             Inl e \<Rightarrow> (buf, snd acc)
           | Inr is_speech \<Rightarrow>
               (slice_from (frame_size sample_rate) buf,
                snd acc @ [(slice_to (frame_size sample_rate) buf, is_speech)]))"

definition classified :: "int \<Rightarrow> poll list \<Rightarrow> (sample list \<times> bool) list" where
  "classified sample_rate ps = snd (foldl (feed sample_rate) ([], []) ps)"

definition speech_frames :: "(sample list \<times> bool) list \<Rightarrow> sample list list" where
  "speech_frames cl = map fst (filter snd cl)"

text \<open>The number of non-speech frames at the end of the sequence, after the last speech frame.\<close>

definition silence_run :: "(sample list \<times> bool) list \<Rightarrow> nat" where
  "silence_run cl = length (takeWhile (\<lambda>x. \<not> snd x) (rev cl))"

definition speech_seen :: "(sample list \<times> bool) list \<Rightarrow> bool" where
  "speech_seen cl = list_ex snd cl"

text \<open>
  The loop's variables agree with the frames cut by \<open>feed\<close>: the same samples are left in
  the buffer, the recording is the speech frames one after the other, and the counter is
  the run of non-speech frames once something has been recorded.
\<close>

definition tracks :: "rec_state \<Rightarrow> sample list \<times> (sample list \<times> bool) list \<Rightarrow> bool" where
  "tracks st acc =
     (buffer st = fst acc \<and> recording st = concat (speech_frames (snd acc)) \<and>
      num_silent_frames st = (if recording st = [] then 0 else int (silence_run (snd acc))))"

subsection \<open>The frames of the sample stream, as the specification defines them\<close>

text \<open>
  The data model of the specification: a frame holds
  \<open>sample_rate \<times> duration / 1000\<close> samples, with a duration of 30 ms; the frames do not
  overlap and are taken in the order of arrival. So the frames are the consecutive pieces of
  that length of the stream of all samples delivered. None of the following refers to the
  buffer of the loop or to the way the loop cuts it.

  \<open>frame_labels n k delivered ps\<close> lists, for the frames from number \<open>k\<close> on, whether the frame
  is classified as speech: a frame is taken on the first pass on which the samples delivered
  so far (\<open>delivered\<close> before the pass) reach its end, at most one frame on a pass, and the
  answer of the detector on that pass is its label.
\<close>

definition spec_frame_length :: "int \<Rightarrow> nat" where
  "spec_frame_length sample_rate = nat (sample_rate * 30 div 1000)"

definition sample_stream :: "poll list \<Rightarrow> sample list" where
  "sample_stream ps = concat (map pushed ps)"

definition nth_frame :: "nat \<Rightarrow> sample list \<Rightarrow> nat \<Rightarrow> sample list" where
  "nth_frame n xs k = take n (drop (k * n) xs)"

fun frame_labels :: "nat \<Rightarrow> nat \<Rightarrow> nat \<Rightarrow> poll list \<Rightarrow> bool list" where
  "frame_labels n k delivered [] = []"
| "frame_labels n k delivered (p # ps) =
     (if delivered + length (pushed p) < (k + 1) * n
      then frame_labels n k (delivered + length (pushed p)) ps
      else (vad_is_speech p = Inr True)
             # frame_labels n (Suc k) (delivered + length (pushed p)) ps)"

definition speech_indices :: "bool list \<Rightarrow> nat list" where
  "speech_indices labels = filter (\<lambda>k. labels ! k) [0..<length labels]"

section \<open>The session\<close>

text \<open>
  What the session changes outside itself: the status queue (pairs in the order they were
  put), the files on disk (path and the samples written to it), whether
  \<^verbatim>\<open>recording_thread.stop()\<close> was called, and whether a stack trace was printed.
\<close>

record world =
  status_queue :: "(string \<times> string) list"
  files :: "(string \<times> sample list) list"
  thread_stopped :: bool
  traceback_printed :: bool

text \<open>
  What the collaborators answer or raise during one session:
  \<^item> \<open>stream_open\<close>: \<^verbatim>\<open>sd.InputStream(...)\<close>, entered by \<^verbatim>\<open>with\<close>;
  \<^item> \<open>query_devices\<close>: \<^verbatim>\<open>sd.query_devices(stream.device)\<close>;
  \<^item> \<open>polls\<close>: the passes through the loop body;
  \<^item> \<open>tempfile_name\<close>: the name of the file \<^verbatim>\<open>tempfile.NamedTemporaryFile\<close> creates;
  \<^item> \<open>wave_write\<close>: the \<^verbatim>\<open>wave\<close> module writing the container;
  \<^item> \<open>api_response\<close>: \<^verbatim>\<open>openai.Audio.transcribe(...)\<close>;
  \<^item> \<open>model_create\<close>: \<^verbatim>\<open>WhisperModel(...)\<close>;
  \<^item> \<open>model_segments\<close>: the texts of the segments of \<^verbatim>\<open>local_model.transcribe(...)\<close>;
  \<^item> \<open>os_remove\<close>: \<^verbatim>\<open>os.remove\<close> refusing to delete;
  \<^item> \<open>str_lower_beyond\<close>: what \<^verbatim>\<open>str.lower()\<close> returns for a text that leaves Latin-1.
  \<open>None\<close> in an \<open>exn option\<close> means that the call succeeds. Constructing the
  detector (line 44), closing the stream, putting a pair on the status queue and printing
  are taken to succeed always.
\<close>

record env =
  stream_open :: "exn option"
  query_devices :: "exn + pyval"
  polls :: "poll list"
  tempfile_name :: "exn + string"
  wave_write :: "exn option"
  api_response :: "exn + pyval"
  model_create :: "exn option"
  model_segments :: "exn + pystr list"
  os_remove :: "exn option"
  str_lower_beyond :: "pystr \<Rightarrow> pystr"

text \<open>
  An action returns a value or raises, and leaves the world changed either way. \<open>seq\<close>
  runs one action after another, \<open>expr\<close> is an expression that leaves the world alone,
  \<open>put\<close> is \<^verbatim>\<open>status_queue.put\<close>.
\<close>

type_synonym 'a act = "world \<Rightarrow> (exn + 'a) \<times> world"

definition seq :: "'a act \<Rightarrow> ('a \<Rightarrow> 'b act) \<Rightarrow> 'b act" where
  "seq m f = (\<lambda>w. case m w of (Inl e, w') \<Rightarrow> (Inl e, w') | (Inr v, w') \<Rightarrow> f v w')"

definition expr :: "exn + 'a \<Rightarrow> 'a act" where
  "expr r = (\<lambda>w. (r, w))"

definition put :: "string \<times> string \<Rightarrow> unit act" where
  "put item = (\<lambda>w. (Inr (), w\<lparr>status_queue := status_queue w @ [item]\<rparr>))"

text \<open>
  \<^verbatim>\<open>print(..., arg) if config['print_to_terminal'] else ''\<close>: the option is read first, the
  argument is evaluated only when the option is truthy.
\<close>

definition print_if :: "pyval \<Rightarrow> exn + 'a \<Rightarrow> exn + unit" where
  "print_if config arg =
     bind (subscript config ''print_to_terminal'') (\<lambda>p.
       if truthy p then bind arg (\<lambda>_. Inr ()) else Inr ())"

text \<open>\<^verbatim>\<open>result.strip()\<close>: only a string has the method.\<close>

fun py_strip :: "pyval \<Rightarrow> exn + pystr" where
  "py_strip (PStr s) = Inr (strip s)"
| "py_strip _ = Inl AttributeError"

text \<open>Reading a local variable that may not have been assigned.\<close>

fun read_var :: "pyval option \<Rightarrow> exn + pyval" where
  "read_var None = Inl UnboundLocalError"
| "read_var (Some v) = Inr v"

text \<open>
  Lines 52 to 80: the stream is opened, the device is looked up and printed, and the loop
  runs. The result is the loop's; an exception before the loop is \<open>Raise\<close> as well.
\<close>

definition capture :: "env \<Rightarrow> pyval \<Rightarrow> pyval \<Rightarrow> int \<Rightarrow> bool \<Rightarrow> loop_status" where
  "capture en config sample_rate num_silence_frames recording_thread =
     (case as_int sample_rate of
        Inl e \<Rightarrow> Raise e
      | Inr sr \<Rightarrow>
         (case stream_open en of
            Some e \<Rightarrow> Raise e
          | None \<Rightarrow>
             (case query_devices en of
                Inl e \<Rightarrow> Raise e
              | Inr device_info \<Rightarrow>
                 (case print_if config (subscript device_info ''name'') of
                    Inl e \<Rightarrow> Raise e
                  | Inr _ \<Rightarrow> loop sr num_silence_frames recording_thread init_state (polls en)))))"

text \<open>
  Lines 90 to 95: the temporary file is created empty (\<^verbatim>\<open>delete=False\<close>, so that closing
  it does not delete it), then the samples are written to it.
\<close>

definition save_wav :: "env \<Rightarrow> sample list \<Rightarrow> string act" where
  "save_wav en audio_data =
     (\<lambda>w. case tempfile_name en of
             Inl e \<Rightarrow> (Inl e, w)
           | Inr name \<Rightarrow>
               (case wave_write en of
                  Some e \<Rightarrow>
                    (Inl e, w\<lparr>files := (name, []) # filter (\<lambda>f. fst f \<noteq> name) (files w)\<rparr>)
                | None \<Rightarrow>
                    (Inr name,
                     w\<lparr>files := (name, audio_data) # filter (\<lambda>f. fst f \<noteq> name) (files w)\<rparr>)))"

text \<open>Opening the temporary file for reading (line 103).\<close>

definition open_rb :: "string \<Rightarrow> unit act" where
  "open_rb name =
     (\<lambda>w. (if name \<in> fst ` set (files w) then Inr () else Inl FileNotFoundError, w))"

text \<open>Lines 27 to 31, \<^verbatim>\<open>create_local_model(config)\<close>.\<close>

definition create_local_model :: "env \<Rightarrow> pyval \<Rightarrow> exn + unit" where
  "create_local_model en config =
     bind (bind (subscript config ''local_model_options'') (\<lambda>opts. subscript opts ''model'')) (\<lambda>_.
     bind (bind (subscript config ''local_model_options'') (\<lambda>opts. subscript opts ''device'')) (\<lambda>_.
     bind (bind (subscript config ''local_model_options'') (\<lambda>opts. subscript opts ''compute_type'')) (\<lambda>_.
     (case model_create en of Some e \<Rightarrow> Inl e | None \<Rightarrow> Inr ()))))"

text \<open>
  Lines 101 to 123: the value of the variable \<^verbatim>\<open>result\<close>, or \<open>None\<close> when neither branch
  has assigned it.
\<close>

definition dispatch :: "env \<Rightarrow> pyval \<Rightarrow> bool \<Rightarrow> string \<Rightarrow> (pyval option) act" where
  "dispatch en config local_model name =
     seq (expr (subscript config ''use_api'')) (\<lambda>use_api.
       if truthy use_api then
         seq (expr (subscript config ''api_options'')) (\<lambda>api_options.
         seq (open_rb name) (\<lambda>_.
         seq (expr (subscript api_options ''model'')) (\<lambda>_.
         seq (expr (subscript api_options ''language'')) (\<lambda>_.
         seq (expr (subscript api_options ''initial_prompt'')) (\<lambda>_.
         seq (expr (subscript api_options ''temperature'')) (\<lambda>_.
         seq (expr (api_response en)) (\<lambda>response.
         seq (expr (py_get response ''text'')) (\<lambda>result.
         expr (Inr (Some result))))))))))
       else
         seq (expr (subscript config ''use_api'')) (\<lambda>use_api2.
           if \<not> truthy use_api2 then
             seq (if \<not> local_model then
                    seq (expr (print_if config (Inr ()))) (\<lambda>_.
                    seq (expr (create_local_model en config)) (\<lambda>_.
                    expr (print_if config (Inr ()))))
                  else expr (Inr ())) (\<lambda>_.
             seq (expr (subscript config ''local_model_options'')) (\<lambda>model_options.
             seq (expr (subscript model_options ''language'')) (\<lambda>_.
             seq (expr (subscript model_options ''initial_prompt'')) (\<lambda>_.
             seq (expr (subscript model_options ''condition_on_previous_text'')) (\<lambda>_.
             seq (expr (subscript model_options ''temperature'')) (\<lambda>_.
             seq (expr (subscript model_options ''vad_filter'')) (\<lambda>_.
             seq (expr (model_segments en)) (\<lambda>segments.
             expr (Inr (Some (PStr (concat segments))))))))))))
           else expr (Inr None)))"

text \<open>
  Line 126, \<^verbatim>\<open>os.remove(temp_audio_file.name)\<close>: the file is deleted, unless the call raises.
\<close>

definition remove_file :: "env \<Rightarrow> string \<Rightarrow> unit act" where
  "remove_file en name =
     (\<lambda>w. case os_remove en of
             Some e \<Rightarrow> (Inl e, w)
           | None \<Rightarrow>
               if name \<in> fst ` set (files w)
               then (Inr (), w\<lparr>files := filter (\<lambda>f. fst f \<noteq> name) (files w)\<rparr>)
               else (Inl FileNotFoundError, w))"

text \<open>Lines 86 to 135: from the end of the loop to the \<^verbatim>\<open>return\<close>.\<close>

definition transcribe :: "env \<Rightarrow> pyval \<Rightarrow> bool \<Rightarrow> sample list \<Rightarrow> pystr act" where
  "transcribe en config local_model audio_data =
     seq (expr (print_if config (Inr (length audio_data)))) (\<lambda>_.
     seq (save_wav en audio_data) (\<lambda>name.
     seq (put (''transcribing'', ''Transcribing...'')) (\<lambda>_.
     seq (expr (print_if config (Inr ()))) (\<lambda>_.
     seq (dispatch en config local_model name) (\<lambda>result.
     seq (remove_file en name) (\<lambda>_.
     seq (expr (print_if config (bind (read_var result) py_strip))) (\<lambda>_.
     seq (put (''idle'', [])) (\<lambda>_.
     seq (expr (read_var result)) (\<lambda>r.
       if truthy r
       then expr (bind (py_strip r) (\<lambda>s. process_transcription (str_lower_beyond en) s config))
       else expr (Inr []))))))))))"

text \<open>
  Lines 51 to 135, the body of \<^verbatim>\<open>try\<close>: \<open>None\<close> when the loop is still running, otherwise
  the returned string or the exception that leaves the body.
\<close>

definition try_body ::
  "env \<Rightarrow> pyval \<Rightarrow> bool \<Rightarrow> bool \<Rightarrow> pyval \<Rightarrow> int \<Rightarrow> world \<Rightarrow> (exn + pystr) option \<times> world" where
  "try_body en config local_model recording_thread sample_rate num_silence_frames w =
     (case capture en config sample_rate num_silence_frames recording_thread of
        Continue st \<Rightarrow> (None, w)
      | Raise e \<Rightarrow> (Some (Inl e), w)
      | Break st reason stopped \<Rightarrow>
          (case transcribe en config local_model (recording st)
                  (w\<lparr>thread_stopped := thread_stopped w \<or> stopped\<rparr>) of
             (r, w') \<Rightarrow> (Some r, w')))"

text \<open>
  How a call ends: it returns a value (\<^verbatim>\<open>None\<close> when the function falls off its end
  after the handler), or an exception leaves the function: one raised before \<^verbatim>\<open>try\<close>, or
  one that \<^verbatim>\<open>except Exception\<close> does not catch.
\<close>

datatype outcome = Returned pyval | Propagated exn

text \<open>Lines 38, 39 and 42, which are outside \<^verbatim>\<open>try\<close>.\<close>

definition settings :: "pyval \<Rightarrow> exn + (pyval \<times> pyval \<times> pyval)" where
  "settings config =
     bind (if truthy config then subscript config ''sound_device'' else Inr PNone) (\<lambda>sound_device.
     bind (if truthy config then subscript config ''sample_rate'' else Inr (PInt 16000)) (\<lambda>sample_rate.
     bind (if truthy config then subscript config ''silence_duration'' else Inr (PInt 900)) (\<lambda>silence_duration.
     Inr (sound_device, sample_rate, silence_duration))))"

text \<open>
  \<^verbatim>\<open>record_and_transcribe(status_queue, cancel_flag, config, local_model, recording_thread)\<close>,
  lines 37 to 139. The status queue is part of the world, the answers of \<^verbatim>\<open>cancel_flag\<close>
  are part of the passes; \<open>local_model\<close> and \<open>recording_thread\<close> tell whether the argument
  was passed. The result is \<open>None\<close> when the loop is still running after the last pass.
\<close>

definition record_and_transcribe ::
  "env \<Rightarrow> pyval \<Rightarrow> bool \<Rightarrow> bool \<Rightarrow> world \<Rightarrow> outcome option \<times> world" where
  "record_and_transcribe en config local_model recording_thread w =
     (case settings config of
        Inl e \<Rightarrow> (Some (Propagated e), w)
      | Inr (sound_device, sample_rate, silence_duration) \<Rightarrow>
         (case as_int silence_duration of
            Inl e \<Rightarrow> (Some (Propagated e), w)
          | Inr sd \<Rightarrow>
             (case try_body en config local_model recording_thread sample_rate
                     (num_silence_frames_of sd) w of
                (None, w') \<Rightarrow> (None, w')
              | (Some (Inr text), w') \<Rightarrow> (Some (Returned (PStr text)), w')
              | (Some (Inl e), w') \<Rightarrow>
                  if is_exception e
                  then (Some (Returned PNone),
                        w'\<lparr>traceback_printed := True,
                           status_queue := status_queue w' @ [(''error'', ''Error'')]\<rparr>)
                  else (Some (Propagated e), w'))))"

text \<open>
  The exceptions that the collaborators raise in a session, and the actions that raise only
  exceptions from a given set; both serve to say where an exception comes from.
\<close>

definition collaborator_raises :: "env \<Rightarrow> exn \<Rightarrow> bool" where
  "collaborator_raises en e =
     (stream_open en = Some e \<or> query_devices en = Inl e
      \<or> list_ex (\<lambda>p. vad_is_speech p = Inl e) (polls en)
      \<or> tempfile_name en = Inl e \<or> wave_write en = Some e \<or> api_response en = Inl e
      \<or> model_create en = Some e \<or> model_segments en = Inl e \<or> os_remove en = Some e)"

definition raises_only :: "(exn \<Rightarrow> bool) \<Rightarrow> 'a act \<Rightarrow> bool" where
  "raises_only P m = (\<forall>w e w'. m w = (Inl e, w') \<longrightarrow> P e)"

section \<open>Example inputs\<close>

text \<open>
  A pass on which the callback has delivered \<open>n\<close> samples that the detector classifies as
  speech, and one on which it classifies them as non-speech while \<^verbatim>\<open>cancel_flag()\<close> answers
  \<open>cancel\<close>.
\<close>

definition speech_poll :: "nat \<Rightarrow> poll" where
  "speech_poll n =
     \<lparr>pushed = replicate n 0, vad_is_speech = Inr True,
      cancel_flag_71 = False, cancel_flag_74 = False\<rparr>"

definition quiet_poll :: "nat \<Rightarrow> bool \<Rightarrow> poll" where
  "quiet_poll n cancel =
     \<lparr>pushed = replicate n 0, vad_is_speech = Inr False,
      cancel_flag_71 = cancel, cancel_flag_74 = cancel\<rparr>"

text \<open>
  A complete configuration (16 kHz), with the silence duration and the two switches
  \<^verbatim>\<open>use_api\<close> and \<^verbatim>\<open>print_to_terminal\<close> left open.
\<close>

definition example_config :: "pyval \<Rightarrow> bool \<Rightarrow> bool \<Rightarrow> pyval" where
  "example_config silence_duration use_api print_to_terminal =
     PDict [(''use_api'', PBool use_api),
            (''api_options'',
               PDict [(''model'', PStr (text_of ''whisper-1'')), (''language'', PNone),
                      (''temperature'', PInt 0), (''initial_prompt'', PNone)]),
            (''local_model_options'',
               PDict [(''model'', PStr (text_of ''base'')), (''device'', PStr (text_of ''auto'')),
                      (''compute_type'', PStr (text_of ''auto'')), (''language'', PNone),
                      (''temperature'', PInt 0), (''initial_prompt'', PNone),
                      (''condition_on_previous_text'', PBool True),
                      (''vad_filter'', PBool False)]),
            (''sound_device'', PNone),
            (''sample_rate'', PInt 16000),
            (''silence_duration'', silence_duration),
            (''remove_trailing_period'', PBool False),
            (''add_trailing_space'', PBool False),
            (''remove_capitalization'', PBool False),
            (''print_to_terminal'', PBool print_to_terminal)]"

text \<open>
  A session in which every collaborator succeeds: 34 speech frames, then 30 non-speech
  frames, and the remote service or the local model answers with the response given. The
  texts of the example are Latin-1, so that \<open>str_lower_beyond\<close> is never asked; it is
  the identity here.
\<close>

definition example_env :: "exn + pyval \<Rightarrow> env" where
  "example_env response =
     \<lparr>stream_open = None,
      query_devices = Inr (PDict [(''name'', PStr (text_of ''Microphone''))]),
      polls = replicate 34 (speech_poll 480) @ replicate 29 (quiet_poll 480 False)
                @ [quiet_poll 480 False],
      tempfile_name = Inr ''/tmp/tmpk3v9x2.wav'',
      wave_write = None,
      api_response = response,
      model_create = None,
      model_segments = Inr [text_of '' Hello'', text_of '' there.''],
      os_remove = None,
      str_lower_beyond = (\<lambda>s. s)\<rparr>"

definition empty_world :: world where
  "empty_world =
     \<lparr>status_queue = [], files = [], thread_stopped = False, traceback_printed = False\<rparr>"

section \<open>Properties of the post-processor\<close>







section \<open>Properties of the recording loop\<close>

subsection \<open>The loop and its passes\<close>

lemma loop_append:
  "loop sr thr rt st (ps @ qs) =
     (case loop sr thr rt st ps of
        Continue st' \<Rightarrow> loop sr thr rt st' qs
      | Break st' r b \<Rightarrow> Break st' r b
      | Raise e \<Rightarrow> Raise e)"
  by (induction ps arbitrary: st) (auto split: loop_status.splits)

lemma loop_snoc:
  "loop sr thr rt st ps = Continue st' \<Longrightarrow> loop sr thr rt st (ps @ [p]) = step sr thr rt st' p"
  by (simp add: loop_append split: loop_status.splits)

lemma consumed_Continue:
  "loop sr thr rt st ps = Continue st' \<Longrightarrow> consumed sr thr rt st ps = ps"
  by (induction ps arbitrary: st) (auto split: loop_status.splits)

lemma loop_Break_last:
  "loop sr thr rt st ps = Break st' r b \<Longrightarrow>
     \<exists>qs p st''. consumed sr thr rt st ps = qs @ [p] \<and> loop sr thr rt st qs = Continue st'' \<and>
       step sr thr rt st'' p = Break st' r b"
proof (induction ps arbitrary: st)
  case Nil
  then show ?case by simp
next
  case (Cons a ps)
  show ?case
  proof (cases "step sr thr rt st a")
    case (Continue st1)
    with Cons.prems have "loop sr thr rt st1 ps = Break st' r b" by simp
    from Cons.IH [OF this] obtain qs p st'' where
      h: "consumed sr thr rt st1 ps = qs @ [p]" "loop sr thr rt st1 qs = Continue st''"
         "step sr thr rt st'' p = Break st' r b" by blast
    have "consumed sr thr rt st (a # ps) = (a # qs) @ [p]" using Continue h(1) by simp
    moreover have "loop sr thr rt st (a # qs) = Continue st''" using Continue h(2) by simp
    ultimately show ?thesis using h(3) by blast
  next
    case (Break st1 r1 b1)
    with Cons.prems have e: "st1 = st'" "r1 = r" "b1 = b" by simp_all
    have "consumed sr thr rt st (a # ps) = [] @ [a]" using Break by simp
    moreover have "loop sr thr rt st [] = Continue st" by simp
    ultimately show ?thesis using Break e by blast
  next
    case (Raise e)
    with Cons.prems show ?thesis by simp
  qed
qed

lemma stop_check_state:
  "stop_check sr thr rt p st = Continue st' \<Longrightarrow> st' = st"
  "stop_check sr thr rt p st = Break st' r b \<Longrightarrow> st' = st"
  by (auto simp: stop_check_def Let_def split: if_splits)

lemma stop_check_Break_iff:
  "stop_check sr thr rt p st = Break st' r b \<longleftrightarrow>
     st' = st \<and> (thr \<le> num_silent_frames st \<or> cancel_flag_71 p) \<and> sr \<le> int (length (recording st)) \<and>
     r = (if thr \<le> num_silent_frames st then Silence
          else if cancel_flag_74 p then Hotkey_pressed else Unknown) \<and>
     b = (rt \<and> thr \<le> num_silent_frames st)"
  by (auto simp: stop_check_def Let_def split: if_splits)

lemma silence_run_snoc: "silence_run (cl @ [(f, s)]) = (if s then 0 else Suc (silence_run cl))"
  by (simp add: silence_run_def)

lemma speech_frames_snoc: "speech_frames (cl @ [(f, s)]) = speech_frames cl @ (if s then [f] else [])"
  by (simp add: speech_frames_def)

lemma tracks_frame_update:
  assumes "tracks st acc"
  shows "tracks (frame_update sr st (buffer st @ pushed p) s)
           (slice_from (frame_size sr) (fst acc @ pushed p),
            snd acc @ [(slice_to (frame_size sr) (fst acc @ pushed p), s)])"
  using assms
  by (auto simp: tracks_def frame_update_def Let_def silence_run_snoc speech_frames_snoc)

lemma tracks_step:
  assumes "tracks st acc"
    and "step sr thr rt st p = Continue st' \<or> step sr thr rt st p = Break st' r b"
  shows "tracks st' (feed sr acc p)"
proof (cases "int (length (buffer st @ pushed p)) < frame_size sr")
  case True
  with assms show ?thesis by (auto simp: step_def feed_def tracks_def Let_def)
next
  case False
  show ?thesis
  proof (cases "vad_is_speech p")
    case (Inl e)
    with False assms(2) show ?thesis by (simp add: step_def Let_def)
  next
    case (Inr s)
    have b: "buffer st = fst acc" using assms(1) by (simp add: tracks_def)
    from False Inr assms(2) have "st' = frame_update sr st (buffer st @ pushed p) s"
      by (auto simp: step_def Let_def dest: stop_check_state)
    moreover have "feed sr acc p = (slice_from (frame_size sr) (fst acc @ pushed p),
            snd acc @ [(slice_to (frame_size sr) (fst acc @ pushed p), s)])"
      using False Inr b by (simp add: feed_def Let_def)
    ultimately show ?thesis using tracks_frame_update [OF assms(1)] by simp
  qed
qed

lemma tracks_loop:
  "tracks st acc \<Longrightarrow> loop sr thr rt st ps = Continue st' \<Longrightarrow> tracks st' (foldl (feed sr) acc ps)"
proof (induction ps arbitrary: st acc)
  case Nil
  then show ?case by simp
next
  case (Cons a ps)
  from Cons.prems(2) obtain st1 where s1: "step sr thr rt st a = Continue st1"
    and l1: "loop sr thr rt st1 ps = Continue st'"
    by (auto split: loop_status.splits)
  have "tracks st1 (feed sr acc a)" using tracks_step [OF Cons.prems(1)] s1 by blast
  from Cons.IH [OF this l1] show ?case by simp
qed

lemma tracks_init: "tracks init_state ([], [])"
  by (simp add: tracks_def init_state_def speech_frames_def silence_run_def)

lemma tracks_Break:
  assumes "loop sr thr rt init_state ps = Break st r b"
  shows "tracks st (foldl (feed sr) ([], []) (consumed sr thr rt init_state ps))"
proof -
  from loop_Break_last [OF assms] obtain qs p st'' where
    h: "consumed sr thr rt init_state ps = qs @ [p]" "loop sr thr rt init_state qs = Continue st''"
       "step sr thr rt st'' p = Break st r b" by blast
  have "tracks st'' (foldl (feed sr) ([], []) qs)"
    using tracks_loop [OF tracks_init h(2)] .
  then have "tracks st (feed sr (foldl (feed sr) ([], []) qs) p)"
    using tracks_step h(3) by blast
  then show ?thesis using h(1) by simp
qed

lemma wait_step:
  assumes "step sr thr rt st p = Continue st'"
    and "thr \<le> num_silent_frames st \<Longrightarrow> int (length (recording st)) < sr"
    and "thr \<le> num_silent_frames st'"
  shows "int (length (recording st')) < sr"
proof (cases "int (length (buffer st @ pushed p)) < frame_size sr")
  case True
  with assms show ?thesis by (auto simp: step_def Let_def)
next
  case False
  with assms(1) obtain s where
    "stop_check sr thr rt p (frame_update sr st (buffer st @ pushed p) s) = Continue st'"
    by (auto simp: step_def Let_def split: sum.splits)
  with assms(3) show ?thesis
    by (auto simp: stop_check_def Let_def split: if_splits)
qed

lemma wait_loop:
  "loop sr thr rt st ps = Continue st' \<Longrightarrow>
   (thr \<le> num_silent_frames st \<Longrightarrow> int (length (recording st)) < sr) \<Longrightarrow>
   thr \<le> num_silent_frames st' \<Longrightarrow> int (length (recording st')) < sr"
proof (induction ps arbitrary: st)
  case Nil
  then show ?case by simp
next
  case (Cons a ps)
  from Cons.prems(1) obtain st1 where s1: "step sr thr rt st a = Continue st1"
    and l1: "loop sr thr rt st1 ps = Continue st'"
    by (auto split: loop_status.splits)
  show ?case
    using Cons.IH [OF l1 _ Cons.prems(3)] wait_step [OF s1] Cons.prems(2) by blast
qed

lemma slice_to_length:
  "0 \<le> n \<Longrightarrow> n \<le> int (length xs) \<Longrightarrow> int (length (slice_to n xs)) = n"
  by (simp add: slice_to_def)

lemma length_concat_uniform:
  "\<forall>f\<in>set fs. int (length f) = n \<Longrightarrow> int (length (concat fs)) = n * int (length fs)"
  by (induction fs) (auto simp: algebra_simps)

lemma frame_size_nonneg: "0 \<le> sr \<Longrightarrow> 0 \<le> frame_size sr"
  by (simp add: frame_size_def frame_duration_def pos_imp_zdiv_nonneg_iff)

lemma num_silence_frames_floor:
  "num_silence_frames_of sd * frame_duration \<le> sd \<and>
   sd < (num_silence_frames_of sd + 1) * frame_duration"
  unfolding num_silence_frames_of_def frame_duration_def by presburger

lemma num_silence_frames_nonneg: "0 \<le> sd \<Longrightarrow> 0 \<le> num_silence_frames_of sd"
  by (simp add: num_silence_frames_of_def frame_duration_def pos_imp_zdiv_nonneg_iff)

lemma classified_snoc:
  "classified sr (qs @ [p]) = snd (feed sr (foldl (feed sr) ([], []) qs) p)"
  by (simp add: classified_def)

lemma speech_seen_iff: "speech_seen cl \<longleftrightarrow> speech_frames cl \<noteq> []"
  by (auto simp: speech_seen_def speech_frames_def list_ex_iff filter_empty_conv)

subsection \<open>Runs of equal passes\<close>

lemma step_speech_poll:
  assumes "buffer st = []" and "int n = frame_size sr" and "0 < thr"
  shows "step sr thr rt st (speech_poll n) =
           Continue \<lparr>buffer = [], recording = recording st @ replicate n 0, num_silent_frames = 0\<rparr>"
  using assms
  by (simp add: step_def speech_poll_def frame_update_def stop_check_def slice_to_def
      slice_from_def Let_def flip: assms(2))

lemma loop_speech_polls:
  assumes "buffer st = []" and "int n = frame_size sr" and "0 < thr"
  shows "loop sr thr rt st (replicate (Suc k) (speech_poll n)) =
           Continue \<lparr>buffer = [], recording = recording st @ replicate (Suc k * n) 0,
                     num_silent_frames = 0\<rparr>"
  using assms(1)
proof (induction k arbitrary: st)
  case 0
  then show ?case using step_speech_poll [OF _ assms(2,3)] by simp
next
  case (Suc k)
  have "loop sr thr rt st (replicate (Suc (Suc k)) (speech_poll n)) =
          loop sr thr rt \<lparr>buffer = [], recording = recording st @ replicate n 0, num_silent_frames = 0\<rparr>
            (replicate (Suc k) (speech_poll n))"
    using step_speech_poll [OF Suc.prems assms(2,3)] by simp
  also have "\<dots> = Continue \<lparr>buffer = [], recording = (recording st @ replicate n 0) @ replicate (Suc k * n) 0,
                     num_silent_frames = 0\<rparr>"
    by (subst Suc.IH) simp_all
  finally show ?case by (simp add: replicate_add [symmetric])
qed

lemma step_quiet_poll:
  assumes "buffer st = []" and "int n = frame_size sr" and "recording st \<noteq> []"
    and "int (length (recording st)) < sr \<or> (num_silent_frames st + 1 < thr \<and> \<not> c)"
  shows "step sr thr rt st (quiet_poll n c) =
           Continue (st\<lparr>num_silent_frames := num_silent_frames st + 1\<rparr>)"
  using assms
  by (auto simp add: step_def quiet_poll_def frame_update_def stop_check_def slice_to_def
      slice_from_def Let_def simp flip: assms(2))

lemma loop_quiet_polls:
  assumes "int n = frame_size sr"
  shows "buffer st = [] \<Longrightarrow> recording st \<noteq> [] \<Longrightarrow>
     int (length (recording st)) < sr \<or> (num_silent_frames st + int k < thr \<and> \<not> c) \<Longrightarrow>
     loop sr thr rt st (replicate k (quiet_poll n c)) =
       Continue (st\<lparr>num_silent_frames := num_silent_frames st + int k\<rparr>)"
proof (induction k arbitrary: st)
  case 0
  then show ?case by simp
next
  case (Suc k)
  let ?st1 = "st\<lparr>num_silent_frames := num_silent_frames st + 1\<rparr>"
  have s: "step sr thr rt st (quiet_poll n c) = Continue ?st1"
    using Suc.prems by (intro step_quiet_poll [OF _ assms]) auto
  have "loop sr thr rt ?st1 (replicate k (quiet_poll n c)) =
          Continue (?st1\<lparr>num_silent_frames := num_silent_frames ?st1 + int k\<rparr>)"
    using Suc.prems by (intro Suc.IH) auto
  with s show ?case by (simp add: add.assoc)
qed

lemma frame_size_16000: "frame_size 16000 = 480"
  by (simp add: frame_size_def frame_duration_def)

lemma num_silence_frames_900: "num_silence_frames_of 900 = 30"
  by (simp add: num_silence_frames_of_def frame_duration_def)

lemma one_second_of_speech:
  "loop 16000 30 rt init_state (replicate 34 (speech_poll 480)) =
     Continue \<lparr>buffer = [], recording = replicate 16320 0, num_silent_frames = 0\<rparr>"
proof -
  have "loop 16000 30 rt init_state (replicate (Suc 33) (speech_poll 480)) =
     Continue \<lparr>buffer = [], recording = recording init_state @ replicate (Suc 33 * 480) 0,
               num_silent_frames = 0\<rparr>"
    by (rule loop_speech_polls) (simp_all add: init_state_def frame_size_16000)
  then show ?thesis by (simp add: init_state_def)
qed

lemma speech_then_29_quiet:
  "loop 16000 30 rt init_state (replicate 34 (speech_poll 480) @ replicate 29 (quiet_poll 480 False)) =
     Continue \<lparr>buffer = [], recording = replicate 16320 0, num_silent_frames = 29\<rparr>"
proof -
  let ?st = "\<lparr>buffer = [], recording = replicate 16320 0, num_silent_frames = 0\<rparr>"
  have "loop 16000 30 rt ?st (replicate 29 (quiet_poll 480 False)) =
          Continue (?st\<lparr>num_silent_frames := num_silent_frames ?st + int 29\<rparr>)"
    by (rule loop_quiet_polls) (simp_all add: frame_size_16000)
  then show ?thesis by (simp add: loop_append one_second_of_speech)
qed

lemma last_quiet_frame:
  "step 16000 30 rt \<lparr>buffer = [], recording = replicate 16320 0, num_silent_frames = 29\<rparr>
     (quiet_poll 480 c) =
   Break \<lparr>buffer = [], recording = replicate 16320 0, num_silent_frames = 30\<rparr> Silence rt"
  by (simp add: step_def quiet_poll_def frame_update_def stop_check_def slice_to_def
      slice_from_def Let_def frame_size_16000)

lemma speech_then_30_quiet:
  "loop 16000 30 rt init_state
     (replicate 34 (speech_poll 480) @ replicate 29 (quiet_poll 480 False) @ [quiet_poll 480 c]) =
   Break \<lparr>buffer = [], recording = replicate 16320 0, num_silent_frames = 30\<rparr> Silence rt"
  using loop_snoc [OF speech_then_29_quiet, of rt "quiet_poll 480 c"] last_quiet_frame [of rt c]
  by simp

lemma short_speech_then_quiet:
  "loop 16000 30 rt init_state (speech_poll 480 # replicate k (quiet_poll 480 c)) =
     Continue \<lparr>buffer = [], recording = replicate 480 0, num_silent_frames = int k\<rparr>"
proof -
  let ?st = "\<lparr>buffer = [], recording = replicate 480 0, num_silent_frames = 0\<rparr>"
  have a: "step 16000 30 rt init_state (speech_poll 480) = Continue ?st"
    using step_speech_poll [of init_state 480 16000 30 rt]
    by (simp add: init_state_def frame_size_16000)
  have "loop 16000 30 rt ?st (replicate k (quiet_poll 480 c)) =
          Continue (?st\<lparr>num_silent_frames := num_silent_frames ?st + int k\<rparr>)"
    by (rule loop_quiet_polls) (simp_all add: frame_size_16000)
  with a show ?thesis by simp
qed

lemma consumed_Break:
  "loop sr thr rt st qs = Continue st' \<Longrightarrow> step sr thr rt st' p = Break a r b \<Longrightarrow>
   consumed sr thr rt st (qs @ p # rest) = qs @ [p]"
  by (induction qs arbitrary: st) (auto split: loop_status.splits)

lemma loop_leading_quiet_polls:
  assumes "int n = frame_size sr" and "0 < sr"
  shows "loop sr thr rt init_state (replicate k (quiet_poll n c)) = Continue init_state"
proof (induction k)
  case 0
  then show ?case by simp
next
  case (Suc k)
  have "step sr thr rt init_state (quiet_poll n c) = Continue init_state"
    using assms(2)
    by (simp add: step_def quiet_poll_def frame_update_def stop_check_def slice_to_def
        slice_from_def Let_def init_state_def flip: assms(1))
  with Suc show ?case by simp
qed

subsection \<open>Leaving the loop on silence\<close>

lemma silence_step_iff:
  assumes thr: "0 \<le> thr" and sr: "0 < sr"
    and T: "tracks st acc"
    and W: "thr \<le> num_silent_frames st \<Longrightarrow> int (length (recording st)) < sr"
  shows "(\<exists>st' b. step sr thr rt st p = Break st' Silence b) \<longleftrightarrow>
         (speech_seen (snd (feed sr acc p))
          \<and> int (silence_run (snd (feed sr acc p))) = thr
          \<and> sr \<le> int (length (concat (speech_frames (snd (feed sr acc p))))))"
proof (cases "int (length (buffer st @ pushed p)) < frame_size sr \<or> (\<exists>e. vad_is_speech p = Inl e)")
  case True
  have b: "buffer st = fst acc" using T by (simp add: tracks_def)
  from True have l: "\<not> (\<exists>st' b. step sr thr rt st p = Break st' Silence b)"
    by (auto simp: step_def Let_def)
  from True b have f: "snd (feed sr acc p) = snd acc"
    by (auto simp: feed_def Let_def)
  have "\<not> (int (silence_run (snd acc)) = thr \<and> sr \<le> int (length (concat (speech_frames (snd acc)))))"
  proof
    assume a: "int (silence_run (snd acc)) = thr \<and> sr \<le> int (length (concat (speech_frames (snd acc))))"
    with T have l: "sr \<le> int (length (recording st))" by (simp add: tracks_def)
    with sr have "recording st \<noteq> []" by auto
    with T a have "thr \<le> num_silent_frames st" by (simp add: tracks_def)
    from W [OF this] l show False by simp
  qed
  with l f show ?thesis by simp
next
  case False
  then obtain s where s: "vad_is_speech p = Inr s"
    and long: "\<not> int (length (buffer st @ pushed p)) < frame_size sr"
    by (cases "vad_is_speech p") auto
  define st1 where "st1 = frame_update sr st (buffer st @ pushed p) s"
  have step: "step sr thr rt st p = stop_check sr thr rt p st1"
    using s long by (simp add: step_def Let_def st1_def)
  have b: "buffer st = fst acc" using T by (simp add: tracks_def)
  have feed: "feed sr acc p = (slice_from (frame_size sr) (fst acc @ pushed p),
            snd acc @ [(slice_to (frame_size sr) (fst acc @ pushed p), s)])"
    using s long b by (simp add: feed_def Let_def)
  have T1: "tracks st1 (feed sr acc p)"
    unfolding st1_def feed by (rule tracks_frame_update [OF T])
  have lhs: "(\<exists>st' b. step sr thr rt st p = Break st' Silence b) \<longleftrightarrow>
      (thr \<le> num_silent_frames st1 \<and> sr \<le> int (length (recording st1)))"
    unfolding step by (auto simp: stop_check_Break_iff)
  have exact: "num_silent_frames st1 = thr"
    if a: "thr \<le> num_silent_frames st1" and l: "sr \<le> int (length (recording st1))"
  proof (rule ccontr)
    assume "num_silent_frames st1 \<noteq> thr"
    with a thr have gt: "thr < num_silent_frames st1" "0 < num_silent_frames st1" by simp_all
    then have "\<not> s" by (auto simp: st1_def frame_update_def Let_def)
    with gt have "recording st1 = recording st \<and> thr \<le> num_silent_frames st"
      by (auto simp: st1_def frame_update_def Let_def split: if_splits)
    with W l show False by simp
  qed
  show ?thesis
  proof
    assume "\<exists>st' b. step sr thr rt st p = Break st' Silence b"
    with lhs have a: "thr \<le> num_silent_frames st1" and l: "sr \<le> int (length (recording st1))"
      by simp_all
    from l sr have ne: "recording st1 \<noteq> []" by auto
    with T1 have "speech_seen (snd (feed sr acc p))"
      by (auto simp: tracks_def speech_seen_iff)
    moreover from exact [OF a l] ne T1 have "int (silence_run (snd (feed sr acc p))) = thr"
      by (simp add: tracks_def)
    moreover from l T1 have "sr \<le> int (length (concat (speech_frames (snd (feed sr acc p)))))"
      by (simp add: tracks_def)
    ultimately show "speech_seen (snd (feed sr acc p))
          \<and> int (silence_run (snd (feed sr acc p))) = thr
          \<and> sr \<le> int (length (concat (speech_frames (snd (feed sr acc p)))))" by simp
  next
    assume r: "speech_seen (snd (feed sr acc p))
          \<and> int (silence_run (snd (feed sr acc p))) = thr
          \<and> sr \<le> int (length (concat (speech_frames (snd (feed sr acc p)))))"
    with T1 have l: "sr \<le> int (length (recording st1))" by (simp add: tracks_def)
    with sr have "recording st1 \<noteq> []" by auto
    with T1 r have "num_silent_frames st1 = thr" by (simp add: tracks_def)
    with l lhs show "\<exists>st' b. step sr thr rt st p = Break st' Silence b" by simp
  qed
qed

text \<open>
  Claim C1, as the code has it. The threshold is the floor of
  \<open>silence_duration / frame_duration\<close>. For a non-negative silence duration and a positive
  sample rate, while the loop is running, the next pass leaves it with reason \<open>Silence\<close>
  exactly when, with the frame of that pass, a speech frame has been seen, the run of
  non-speech frames since the last speech frame is equal to the threshold, and the recording
  holds at least \<open>sample_rate\<close> samples.
\<close>

theorem silence_exit_iff:
  assumes "0 \<le> silence_duration" and "0 < sample_rate"
    and "loop sample_rate (num_silence_frames_of silence_duration) recording_thread init_state qs
           = Continue st"
  shows "num_silence_frames_of silence_duration * frame_duration \<le> silence_duration
       \<and> silence_duration < (num_silence_frames_of silence_duration + 1) * frame_duration
       \<and> ((\<exists>st' b. loop sample_rate (num_silence_frames_of silence_duration) recording_thread
                     init_state (qs @ [p]) = Break st' Silence b)
          \<longleftrightarrow> (speech_seen (classified sample_rate (qs @ [p]))
               \<and> int (silence_run (classified sample_rate (qs @ [p])))
                   = num_silence_frames_of silence_duration
               \<and> sample_rate
                   \<le> int (length (concat (speech_frames (classified sample_rate (qs @ [p])))))))"
proof -
  let ?thr = "num_silence_frames_of silence_duration"
  have thr: "0 \<le> ?thr" using assms(1) by (rule num_silence_frames_nonneg)
  have T: "tracks st (foldl (feed sample_rate) ([], []) qs)"
    using tracks_loop [OF tracks_init assms(3)] .
  have W: "int (length (recording st)) < sample_rate" if "?thr \<le> num_silent_frames st"
    using wait_loop [OF assms(3) _ that] assms(2) by (simp add: init_state_def)
  have "loop sample_rate ?thr recording_thread init_state (qs @ [p])
          = step sample_rate ?thr recording_thread st p"
    using assms(3) by (rule loop_snoc)
  then show ?thesis
    using silence_step_iff [OF thr assms(2) T W, of recording_thread p] num_silence_frames_floor [of silence_duration]
    by (simp add: classified_snoc)
qed

text \<open>
  At 16 kHz and 900 ms: 34 speech frames and 29 non-speech frames leave the loop running,
  the 30th non-speech frame ends it.
\<close>

theorem silence_exit_iff_witness:
  "(0::int) \<le> 900 \<and> (0::int) < 16000
   \<and> loop 16000 (num_silence_frames_of 900) True init_state
        (replicate 34 (speech_poll 480) @ replicate 29 (quiet_poll 480 False))
       = Continue \<lparr>buffer = [], recording = replicate 16320 0, num_silent_frames = 29\<rparr>
   \<and> num_silence_frames_of 900 = 30
   \<and> loop 16000 (num_silence_frames_of 900) True init_state
        ((replicate 34 (speech_poll 480) @ replicate 29 (quiet_poll 480 False)) @ [quiet_poll 480 False])
       = Break \<lparr>buffer = [], recording = replicate 16320 0, num_silent_frames = 30\<rparr> Silence True
   \<and> speech_seen (classified 16000
        ((replicate 34 (speech_poll 480) @ replicate 29 (quiet_poll 480 False)) @ [quiet_poll 480 False]))
   \<and> int (silence_run (classified 16000
        ((replicate 34 (speech_poll 480) @ replicate 29 (quiet_poll 480 False)) @ [quiet_poll 480 False])))
       = 30
   \<and> 16000 \<le> int (length (concat (speech_frames (classified 16000
        ((replicate 34 (speech_poll 480) @ replicate 29 (quiet_poll 480 False)) @ [quiet_poll 480 False])))))"
proof -
  let ?qs = "replicate 34 (speech_poll 480) @ replicate 29 (quiet_poll 480 False)"
  have run: "loop 16000 (num_silence_frames_of 900) True init_state ?qs
       = Continue \<lparr>buffer = [], recording = replicate 16320 0, num_silent_frames = 29\<rparr>"
    using speech_then_29_quiet [of True] by (simp add: num_silence_frames_900)
  have brk: "loop 16000 (num_silence_frames_of 900) True init_state (?qs @ [quiet_poll 480 False])
       = Break \<lparr>buffer = [], recording = replicate 16320 0, num_silent_frames = 30\<rparr> Silence True"
    using speech_then_30_quiet [of True False] by (simp add: num_silence_frames_900)
  have ex: "\<exists>st' b. loop 16000 (num_silence_frames_of 900) True init_state
      (?qs @ [quiet_poll 480 False]) = Break st' Silence b"
    using brk by blast
  have pre: "(0::int) \<le> 900" "(0::int) < 16000" by simp_all
  from silence_exit_iff [OF pre run, of "quiet_poll 480 False"] ex
  have rhs: "speech_seen (classified 16000 (?qs @ [quiet_poll 480 False]))
      \<and> int (silence_run (classified 16000 (?qs @ [quiet_poll 480 False])))
           = num_silence_frames_of 900
      \<and> 16000 \<le> int (length (concat (speech_frames
            (classified 16000 (?qs @ [quiet_poll 480 False])))))"
    by blast
  have thr: "num_silence_frames_of 900 = 30" by (rule num_silence_frames_900)
  from rhs have rhs': "speech_seen (classified 16000 (?qs @ [quiet_poll 480 False]))
      \<and> int (silence_run (classified 16000 (?qs @ [quiet_poll 480 False]))) = 30
      \<and> 16000 \<le> int (length (concat (speech_frames
            (classified 16000 (?qs @ [quiet_poll 480 False])))))"
    unfolding thr .
  from pre run thr brk rhs' show ?thesis by blast
qed

text \<open>
  The claim as it is written fails twice. A silence duration of 100 ms gives the threshold
  3, which is neither the exact quotient nor its ceiling. And at 16 kHz and 900 ms, after one
  recorded speech frame and 30 non-speech frames in a row the loop is still running: the
  recording is shorter than one second.
\<close>

theorem silence_exit_counterexample:
  "num_silence_frames_of 100 = 3 \<and> 3 * frame_duration < 100
   \<and> num_silence_frames_of 900 = 30
   \<and> loop 16000 (num_silence_frames_of 900) True init_state
        (speech_poll 480 # replicate 30 (quiet_poll 480 False))
       = Continue \<lparr>buffer = [], recording = replicate 480 0, num_silent_frames = 30\<rparr>
   \<and> speech_seen (classified 16000 (speech_poll 480 # replicate 30 (quiet_poll 480 False)))
   \<and> silence_run (classified 16000 (speech_poll 480 # replicate 30 (quiet_poll 480 False))) = 30"
proof -
  let ?ps = "speech_poll 480 # replicate 30 (quiet_poll 480 False)"
  let ?st = "\<lparr>buffer = [], recording = replicate 480 0, num_silent_frames = 30\<rparr>"
  have run: "loop 16000 30 True init_state ?ps = Continue ?st"
    using short_speech_then_quiet [of True 30 False] by simp
  have T: "tracks ?st (foldl (feed 16000) ([], []) ?ps)"
    using tracks_loop [OF tracks_init run] .
  then have "int (silence_run (classified 16000 ?ps)) = 30"
    by (simp add: tracks_def classified_def)
  moreover from T have "concat (speech_frames (classified 16000 ?ps)) = replicate 480 0"
    by (simp add: tracks_def classified_def)
  then have "speech_frames (classified 16000 ?ps) \<noteq> []" by auto
  then have "speech_seen (classified 16000 ?ps)" by (simp add: speech_seen_iff)
  moreover have "num_silence_frames_of 100 = 3 \<and> 3 * frame_duration < 100"
    by (simp add: num_silence_frames_of_def frame_duration_def)
  ultimately show ?thesis using run by (simp add: num_silence_frames_900)
qed

subsection \<open>The minimum length\<close>

text \<open>
  Claim C2. Whatever the frames and the answers of the cancel flag, the loop is left only
  with a recording of at least \<open>sample_rate\<close> samples; and a pass whose frame leaves the
  recording shorter than that ends in \<open>Continue\<close> with the frame taken off the buffer,
  whether the silence threshold is reached or the cancel flag is asserted.
\<close>

theorem below_minimum_never_finalizes:
  "(loop sample_rate num_silence_frames recording_thread st ps = Break st' reason stopped
      \<longrightarrow> sample_rate \<le> int (length (recording st')))
   \<and> (frame_size sample_rate \<le> int (length (buffer st @ pushed p))
        \<and> vad_is_speech p = Inr is_speech
        \<and> int (length (recording (frame_update sample_rate st (buffer st @ pushed p) is_speech)))
            < sample_rate
      \<longrightarrow> step sample_rate num_silence_frames recording_thread st p
            = Continue (frame_update sample_rate st (buffer st @ pushed p) is_speech))"
proof
  show "loop sample_rate num_silence_frames recording_thread st ps = Break st' reason stopped
      \<longrightarrow> sample_rate \<le> int (length (recording st'))"
  proof
    assume "loop sample_rate num_silence_frames recording_thread st ps = Break st' reason stopped"
    from loop_Break_last [OF this] obtain p' st'' where
      "step sample_rate num_silence_frames recording_thread st'' p' = Break st' reason stopped"
      by blast
    then show "sample_rate \<le> int (length (recording st'))"
      by (auto simp: step_def Let_def stop_check_Break_iff split: if_splits sum.splits)
  qed
next
  show "frame_size sample_rate \<le> int (length (buffer st @ pushed p))
        \<and> vad_is_speech p = Inr is_speech
        \<and> int (length (recording (frame_update sample_rate st (buffer st @ pushed p) is_speech)))
            < sample_rate
      \<longrightarrow> step sample_rate num_silence_frames recording_thread st p
            = Continue (frame_update sample_rate st (buffer st @ pushed p) is_speech)"
    by (simp add: step_def Let_def stop_check_def)
qed

text \<open>
  At 16 kHz the loop ends with 16320 samples recorded; with 480 samples recorded, a pass on
  which the threshold is reached and the cancel flag is asserted goes on.
\<close>

theorem below_minimum_never_finalizes_witness:
  "loop 16000 30 True init_state
     (replicate 34 (speech_poll 480) @ replicate 29 (quiet_poll 480 False) @ [quiet_poll 480 True])
    = Break \<lparr>buffer = [], recording = replicate 16320 0, num_silent_frames = 30\<rparr> Silence True
   \<and> (16000::int) \<le> int (length (recording
        \<lparr>buffer = [], recording = replicate 16320 0 :: sample list, num_silent_frames = 30\<rparr>))
   \<and> step 16000 30 True \<lparr>buffer = [], recording = replicate 480 0, num_silent_frames = 29\<rparr>
        (quiet_poll 480 True)
      = Continue \<lparr>buffer = [], recording = replicate 480 0, num_silent_frames = 30\<rparr>"
proof -
  let ?st = "\<lparr>buffer = [], recording = replicate 480 0 :: sample list, num_silent_frames = 29\<rparr>"
  have u: "frame_update 16000 ?st (buffer ?st @ pushed (quiet_poll 480 True)) False
         = \<lparr>buffer = [], recording = replicate 480 0, num_silent_frames = 30\<rparr>"
    by (simp add: frame_update_def quiet_poll_def slice_from_def frame_size_16000 Let_def)
  have h: "frame_size 16000 \<le> int (length (buffer ?st @ pushed (quiet_poll 480 True)))
        \<and> vad_is_speech (quiet_poll 480 True) = Inr False
        \<and> int (length (recording (frame_update 16000 ?st (buffer ?st @ pushed (quiet_poll 480 True)) False)))
            < 16000"
    unfolding u by (simp add: quiet_poll_def frame_size_16000)
  have brk: "loop 16000 30 True init_state
     (replicate 34 (speech_poll 480) @ replicate 29 (quiet_poll 480 False) @ [quiet_poll 480 True])
    = Break \<lparr>buffer = [], recording = replicate 16320 0, num_silent_frames = 30\<rparr> Silence True"
    by (rule speech_then_30_quiet)
  from below_minimum_never_finalizes [of 16000 30 True init_state
      "replicate 34 (speech_poll 480) @ replicate 29 (quiet_poll 480 False) @ [quiet_poll 480 True]"
      "\<lparr>buffer = [], recording = replicate 16320 0, num_silent_frames = 30\<rparr>" Silence True] brk
  have len: "(16000::int) \<le> int (length (recording
        \<lparr>buffer = [], recording = replicate 16320 0 :: sample list, num_silent_frames = 30\<rparr>))"
    by blast
  from below_minimum_never_finalizes [of 16000 30 True ?st _ _ _ _ "quiet_poll 480 True" False] h
  have "step 16000 30 True ?st (quiet_poll 480 True)
      = Continue (frame_update 16000 ?st (buffer ?st @ pushed (quiet_poll 480 True)) False)"
    by blast
  then have cont: "step 16000 30 True ?st (quiet_poll 480 True)
      = Continue \<lparr>buffer = [], recording = replicate 480 0, num_silent_frames = 30\<rparr>"
    unfolding u .
  from brk len cont show ?thesis by blast
qed

subsection \<open>Leading silence\<close>

lemma leading_silence_step:
  assumes "vad_is_speech p \<noteq> Inr True"
    and "num_silent_frames st = 0" and "recording st = []"
    and "step sr thr rt st p = Continue st' \<or> step sr thr rt st p = Break st' r b"
  shows "num_silent_frames st' = 0 \<and> recording st' = []"
proof (cases "int (length (buffer st @ pushed p)) < frame_size sr")
  case True
  with assms show ?thesis by (auto simp: step_def Let_def)
next
  case False
  with assms(1,4) have "st' = frame_update sr st (buffer st @ pushed p) False"
    by (auto simp: step_def Let_def split: sum.splits dest: stop_check_state)
  with assms(2,3) show ?thesis by (simp add: frame_update_def Let_def)
qed

text \<open>
  Claim C3, as the code has it. When no frame so far has been classified as speech, the
  counter of silent frames is 0 and the recording is empty, however many non-speech frames
  have arrived. So the silence half of the stop condition, the comparison of the counter
  with the threshold on line 71, holds after leading silence exactly when the threshold is
  not positive: leading silence never brings it about, but does not prevent it either.
\<close>

theorem leading_silence_not_counted:
  assumes "list_all (\<lambda>p. vad_is_speech p \<noteq> Inr True) ps"
    and "loop sample_rate num_silence_frames recording_thread init_state ps = Continue st
         \<or> loop sample_rate num_silence_frames recording_thread init_state ps = Break st reason stopped"
  shows "num_silent_frames st = 0 \<and> recording st = []
         \<and> ((num_silence_frames \<le> num_silent_frames st) = (num_silence_frames \<le> 0))"
proof -
  have "num_silent_frames st0 = 0 \<Longrightarrow> recording st0 = [] \<Longrightarrow>
        list_all (\<lambda>p. vad_is_speech p \<noteq> Inr True) ps \<Longrightarrow>
        loop sample_rate num_silence_frames recording_thread st0 ps = Continue st
         \<or> loop sample_rate num_silence_frames recording_thread st0 ps = Break st reason stopped \<Longrightarrow>
        num_silent_frames st = 0 \<and> recording st = []" for st0
  proof (induction ps arbitrary: st0)
    case Nil
    then show ?case by simp
  next
    case (Cons a ps)
    show ?case
    proof (cases "step sample_rate num_silence_frames recording_thread st0 a")
      case (Continue st1)
      with Cons.prems leading_silence_step [of a st0 sample_rate num_silence_frames recording_thread st1]
      have "num_silent_frames st1 = 0 \<and> recording st1 = []" by simp
      moreover from Continue Cons.prems(4)
      have "loop sample_rate num_silence_frames recording_thread st1 ps = Continue st
         \<or> loop sample_rate num_silence_frames recording_thread st1 ps = Break st reason stopped"
        by simp
      ultimately show ?thesis using Cons.IH [of st1] Cons.prems(3) by simp
    next
      case (Break st1 r1 b1)
      with Cons.prems(4) have "st1 = st" by simp
      with Break Cons.prems leading_silence_step [of a st0 sample_rate num_silence_frames recording_thread st r1 b1]
      show ?thesis by simp
    next
      case (Raise e)
      with Cons.prems(4) show ?thesis by simp
    qed
  qed
  from this [of init_state] assms show ?thesis by (simp add: init_state_def)
qed

text \<open>
  One hundred non-speech frames at 900 ms, the cancel flag asserted throughout: nothing
  changes, and the threshold 30 is not reached.
\<close>

theorem leading_silence_not_counted_witness:
  "list_all (\<lambda>p. vad_is_speech p \<noteq> Inr True) (replicate 100 (quiet_poll 480 True))
   \<and> loop 16000 30 True init_state (replicate 100 (quiet_poll 480 True)) = Continue init_state
   \<and> num_silent_frames init_state = 0 \<and> recording init_state = []
   \<and> ((30 \<le> num_silent_frames init_state) = ((30::int) \<le> 0))"
proof -
  have a: "list_all (\<lambda>p. vad_is_speech p \<noteq> Inr True) (replicate 100 (quiet_poll 480 True))"
    by (simp add: list_all_iff quiet_poll_def)
  have b: "loop 16000 30 True init_state (replicate 100 (quiet_poll 480 True)) = Continue init_state"
    by (rule loop_leading_quiet_polls) (simp_all add: frame_size_16000)
  from leading_silence_not_counted [OF a, of 16000 30 True init_state] a b
  show ?thesis by simp
qed

text \<open>
  The claim as it is written fails for a silence duration below the frame duration. With
  20 ms the threshold is 0; after three leading non-speech frames the counter is 0 and the
  silence half of the stop condition on line 71, \<open>num_silence_frames \<le> num_silent_frames\<close>,
  holds. The loop goes on only because nothing has been recorded yet (lines 72 and 73).
\<close>

theorem leading_silence_counterexample:
  "num_silence_frames_of 20 = 0
   \<and> loop 16000 (num_silence_frames_of 20) True init_state (replicate 3 (quiet_poll 480 False))
       = Continue init_state
   \<and> num_silence_frames_of 20 \<le> num_silent_frames init_state
   \<and> stop_check 16000 (num_silence_frames_of 20) True (quiet_poll 480 False)
        (init_state\<lparr>recording := replicate 16000 0\<rparr>)
       = Break (init_state\<lparr>recording := replicate 16000 0\<rparr>) Silence True"
proof -
  have t: "num_silence_frames_of 20 = 0"
    by (simp add: num_silence_frames_of_def frame_duration_def)
  have l: "loop 16000 0 True init_state (replicate 3 (quiet_poll 480 False)) = Continue init_state"
    by (rule loop_leading_quiet_polls) (simp_all add: frame_size_16000)
  show ?thesis unfolding t using l
    by (simp add: init_state_def stop_check_def quiet_poll_def)
qed

subsection \<open>The exit reason\<close>

text \<open>
  Claim C4, as the code has it. When a pass leaves the loop, \<open>Silence\<close> comes first: the
  reason is \<open>Silence\<close> when the threshold is reached, whatever the cancel flag answers;
  otherwise the cancel flag was asserted on line 71, and the reason is \<open>Hotkey_pressed\<close> when
  it is still asserted on line 74 (\<open>Unknown\<close> when it is not). The thread handle is signalled
  to stop exactly when one was passed and the reason is \<open>Silence\<close>.
\<close>

theorem exit_reason_silence_first:
  assumes "loop sample_rate num_silence_frames recording_thread st0 qs = Continue st"
    and "loop sample_rate num_silence_frames recording_thread st0 (qs @ [p]) = Break st' reason stopped"
  shows "reason = (if num_silence_frames \<le> num_silent_frames st' then Silence
                   else if cancel_flag_74 p then Hotkey_pressed else Unknown)
       \<and> (reason \<noteq> Silence \<longrightarrow> cancel_flag_71 p)
       \<and> stopped = (recording_thread \<and> reason = Silence)"
proof -
  from assms have "step sample_rate num_silence_frames recording_thread st p = Break st' reason stopped"
    by (simp add: loop_snoc)
  then show ?thesis
    by (auto simp: step_def Let_def stop_check_Break_iff split: if_splits sum.splits)
qed

theorem exit_reason_silence_first_witness:
  "loop 16000 30 True init_state
     (replicate 34 (speech_poll 480) @ replicate 29 (quiet_poll 480 False))
    = Continue \<lparr>buffer = [], recording = replicate 16320 0, num_silent_frames = 29\<rparr>
   \<and> loop 16000 30 True init_state
     ((replicate 34 (speech_poll 480) @ replicate 29 (quiet_poll 480 False)) @ [quiet_poll 480 False])
    = Break \<lparr>buffer = [], recording = replicate 16320 0, num_silent_frames = 30\<rparr> Silence True
   \<and> Silence = (if (30::int) \<le> 30 then Silence
                 else if cancel_flag_74 (quiet_poll 480 False) then Hotkey_pressed else Unknown)
   \<and> True = (True \<and> Silence = Silence)"
proof -
  have brk: "loop 16000 30 True init_state
     ((replicate 34 (speech_poll 480) @ replicate 29 (quiet_poll 480 False)) @ [quiet_poll 480 False])
    = Break \<lparr>buffer = [], recording = replicate 16320 0, num_silent_frames = 30\<rparr> Silence True"
    using speech_then_30_quiet [of True False] by simp
  from exit_reason_silence_first [OF speech_then_29_quiet [of True] brk] speech_then_29_quiet [of True] brk
  show ?thesis by simp
qed

text \<open>
  Cancel flag asserted and threshold reached on the same pass: the claim says \<open>Cancelled\<close>,
  the loop says \<open>Silence\<close> and stops the thread.
\<close>

theorem cancelled_priority_counterexample:
  "loop 16000 30 True init_state
     (replicate 34 (speech_poll 480) @ replicate 29 (quiet_poll 480 False) @ [quiet_poll 480 True])
    = Break \<lparr>buffer = [], recording = replicate 16320 0, num_silent_frames = 30\<rparr> Silence True
   \<and> cancel_flag_71 (quiet_poll 480 True) \<and> cancel_flag_74 (quiet_poll 480 True)"
  using speech_then_30_quiet [of True True] by (simp add: quiet_poll_def)

subsection \<open>The recording\<close>

lemma speech_indices_snoc:
  "speech_indices (L @ [s]) = speech_indices L @ (if s then [length L] else [])"
proof -
  have "filter (\<lambda>k. (L @ [s]) ! k) [0..<length L] = filter (\<lambda>k. L ! k) [0..<length L]"
    by (rule filter_cong) (auto simp: nth_append)
  then show ?thesis by (simp add: speech_indices_def)
qed

lemma speech_indices_less: "k \<in> set (speech_indices L) \<Longrightarrow> k < length L"
  by (simp add: speech_indices_def)

lemma frame_end_le: "k < m \<Longrightarrow> (k + 1) * n \<le> m * (n::nat)"
  using mult_le_mono1 [of "Suc k" m n] by simp

lemma nth_frame_append:
  "(k + 1) * n \<le> length xs \<Longrightarrow> nth_frame n (xs @ ys) k = nth_frame n xs k"
  by (simp add: nth_frame_def)

lemma nth_frame_length:
  "(k + 1) * n \<le> length xs \<Longrightarrow> length (nth_frame n xs k) = n"
  by (simp add: nth_frame_def)

lemma frames_before_stable:
  assumes "length L * n \<le> length xs"
  shows "map (nth_frame n (xs @ ys)) (speech_indices L) = map (nth_frame n xs) (speech_indices L)"
proof (rule map_cong [OF refl])
  fix k assume "k \<in> set (speech_indices L)"
  then have "k < length L" by (rule speech_indices_less)
  then have "(k + 1) * n \<le> length L * n" by (rule frame_end_le)
  with assms have "(k + 1) * n \<le> length xs" by simp
  then show "nth_frame n (xs @ ys) k = nth_frame n xs k" by (rule nth_frame_append)
qed

text \<open>
  What ties the variables of the loop to the frames of the stream: the buffer is the stream
  without the frames taken, and the recording is the speech frames among them.
\<close>

lemma framing_step:
  assumes sr: "0 \<le> sample_rate" and n: "n = spec_frame_length sample_rate"
    and b: "buffer st = drop (length L * n) xs" and le: "length L * n \<le> length xs"
    and r: "recording st = concat (map (nth_frame n xs) (speech_indices L))"
    and s: "step sample_rate thr rt st p = Continue st' \<or> step sample_rate thr rt st p = Break st' reason stopped"
  shows "buffer st' = drop (length (L @ frame_labels n (length L) (length xs) [p]) * n) (xs @ pushed p)
       \<and> length (L @ frame_labels n (length L) (length xs) [p]) * n \<le> length (xs @ pushed p)
       \<and> recording st' = concat (map (nth_frame n (xs @ pushed p))
                           (speech_indices (L @ frame_labels n (length L) (length xs) [p])))"
proof -
  have fs: "frame_size sample_rate = int n"
    using sr by (simp add: n spec_frame_length_def frame_size_def frame_duration_def
        pos_imp_zdiv_nonneg_iff)
  have buf: "buffer st @ pushed p = drop (length L * n) (xs @ pushed p)"
    using b le by simp
  have len: "length (buffer st @ pushed p) = length xs + length (pushed p) - length L * n"
    using b le by simp
  have stable: "map (nth_frame n (xs @ pushed p)) (speech_indices L)
      = map (nth_frame n xs) (speech_indices L)"
    by (rule frames_before_stable [OF le])
  show ?thesis
  proof (cases "int (length (buffer st @ pushed p)) < frame_size sample_rate")
    case True
    with s have st': "st' = st\<lparr>buffer := buffer st @ pushed p\<rparr>"
      by (auto simp: step_def Let_def)
    from True have "length (buffer st @ pushed p) < n" unfolding fs by simp
    then have "length xs + length (pushed p) - length L * n < n" unfolding len .
    with le have short: "length xs + length (pushed p) < (length L + 1) * n" by simp
    then have lab: "frame_labels n (length L) (length xs) [p] = []" by simp
    show ?thesis
      unfolding lab using st' buf le r by (simp add: stable)
  next
    case False
    then have "n \<le> length (buffer st @ pushed p)" unfolding fs by simp
    then have "n \<le> length xs + length (pushed p) - length L * n" unfolding len .
    with le have long: "(length L + 1) * n \<le> length xs + length (pushed p)" by simp
    from False s obtain a where a: "vad_is_speech p = Inr a"
      and st': "st' = frame_update sample_rate st (buffer st @ pushed p) a"
      by (auto simp: step_def Let_def split: sum.splits dest: stop_check_state)
    have lab: "frame_labels n (length L) (length xs) [p] = [a]"
      using long a by simp
    have frame: "slice_to (frame_size sample_rate) (buffer st @ pushed p)
        = nth_frame n (xs @ pushed p) (length L)"
      unfolding fs buf by (simp add: slice_to_def nth_frame_def)
    have rest: "slice_from (frame_size sample_rate) (buffer st @ pushed p)
        = drop ((length L + 1) * n) (xs @ pushed p)"
      unfolding fs buf by (simp add: slice_from_def add.commute del: drop_append)
    have old: "recording st = concat (map (nth_frame n (xs @ pushed p)) (speech_indices L))"
      by (simp add: r stable)
    have "buffer st' = drop ((length L + 1) * n) (xs @ pushed p)"
      using st' rest by (simp add: frame_update_def Let_def)
    moreover have "recording st' = concat (map (nth_frame n (xs @ pushed p))
                           (speech_indices (L @ [a])))"
      using st' frame old by (simp add: frame_update_def Let_def speech_indices_snoc)
    ultimately show ?thesis unfolding lab using long by simp
  qed
qed

lemma frame_labels_Cons:
  "frame_labels n k delivered (p # ps)
     = frame_labels n k delivered [p]
       @ frame_labels n (k + length (frame_labels n k delivered [p])) (delivered + length (pushed p)) ps"
  by simp

lemma framing_loop:
  assumes sr: "0 \<le> sample_rate" and n: "n = spec_frame_length sample_rate"
  shows "buffer st = drop (length L * n) xs \<Longrightarrow> length L * n \<le> length xs \<Longrightarrow>
     recording st = concat (map (nth_frame n xs) (speech_indices L)) \<Longrightarrow>
     loop sample_rate thr rt st ps = Break st' reason stopped \<Longrightarrow>
     length (L @ frame_labels n (length L) (length xs) (consumed sample_rate thr rt st ps)) * n
       \<le> length (xs @ sample_stream (consumed sample_rate thr rt st ps))
     \<and> recording st'
         = concat (map (nth_frame n (xs @ sample_stream (consumed sample_rate thr rt st ps)))
             (speech_indices
               (L @ frame_labels n (length L) (length xs) (consumed sample_rate thr rt st ps))))"
proof (induction ps arbitrary: st L xs)
  case Nil
  then show ?case by simp
next
  case (Cons p ps)
  let ?new = "frame_labels n (length L) (length xs) [p]"
  show ?case
  proof (cases "step sample_rate thr rt st p")
    case (Continue st1)
    from framing_step [OF sr n Cons.prems(1,2,3), of thr rt p st1] Continue
    have inv: "buffer st1 = drop (length (L @ ?new) * n) (xs @ pushed p)"
      "length (L @ ?new) * n \<le> length (xs @ pushed p)"
      "recording st1 = concat (map (nth_frame n (xs @ pushed p)) (speech_indices (L @ ?new)))"
      by simp_all
    from Continue Cons.prems(4) have l: "loop sample_rate thr rt st1 ps = Break st' reason stopped"
      by simp
    have c: "consumed sample_rate thr rt st (p # ps) = p # consumed sample_rate thr rt st1 ps"
      using Continue by simp
    have lab: "L @ frame_labels n (length L) (length xs) (p # consumed sample_rate thr rt st1 ps)
        = (L @ ?new) @ frame_labels n (length (L @ ?new)) (length (xs @ pushed p))
                          (consumed sample_rate thr rt st1 ps)"
      by (subst frame_labels_Cons) simp
    have str: "xs @ sample_stream (p # consumed sample_rate thr rt st1 ps)
        = (xs @ pushed p) @ sample_stream (consumed sample_rate thr rt st1 ps)"
      by (simp add: sample_stream_def)
    from Cons.IH [OF inv l] show ?thesis unfolding c lab str .
  next
    case (Break st1 r1 b1)
    with Cons.prems(4) have e: "st1 = st'" by simp
    have c: "consumed sample_rate thr rt st (p # ps) = [p]" using Break by simp
    from framing_step [OF sr n Cons.prems(1,2,3), of thr rt p st' r1 b1] Break e
    show ?thesis unfolding c by (simp add: sample_stream_def)
  next
    case (Raise x)
    with Cons.prems(4) show ?thesis by simp
  qed
qed

text \<open>
  Claim C9. When the loop is left, the recording is the frames classified as speech and
  nothing else, in the order of their arrival, where the frames are the consecutive pieces
  of \<open>sample_rate \<times> 30 / 1000\<close> samples of the stream delivered on the passes made; every
  such frame is whole, and the length of the recording is that frame length times the
  number of frames classified as speech. The sample rate is not negative.
\<close>

theorem recording_is_speech_frames:
  assumes "loop sample_rate num_silence_frames recording_thread init_state ps
             = Break st reason stopped"
    and "0 \<le> sample_rate"
  shows "recording st
           = concat (map (nth_frame (spec_frame_length sample_rate)
                            (sample_stream
                              (consumed sample_rate num_silence_frames recording_thread init_state ps)))
               (speech_indices
                 (frame_labels (spec_frame_length sample_rate) 0 0
                   (consumed sample_rate num_silence_frames recording_thread init_state ps))))
       \<and> length (frame_labels (spec_frame_length sample_rate) 0 0
                   (consumed sample_rate num_silence_frames recording_thread init_state ps))
           * spec_frame_length sample_rate
           \<le> length (sample_stream
                (consumed sample_rate num_silence_frames recording_thread init_state ps))
       \<and> int (length (recording st))
           = (sample_rate * 30 div 1000)
             * int (length (speech_indices
                 (frame_labels (spec_frame_length sample_rate) 0 0
                   (consumed sample_rate num_silence_frames recording_thread init_state ps))))"
proof -
  let ?n = "spec_frame_length sample_rate"
  let ?cs = "consumed sample_rate num_silence_frames recording_thread init_state ps"
  let ?labels = "frame_labels ?n 0 0 ?cs"
  have i: "buffer init_state = drop (length ([] :: bool list) * ?n) []"
    "length ([] :: bool list) * ?n \<le> length ([] :: sample list)"
    "recording init_state = concat (map (nth_frame ?n []) (speech_indices []))"
    by (simp_all add: init_state_def speech_indices_def)
  from framing_loop [OF assms(2) refl i assms(1)]
  have whole: "length ?labels * ?n \<le> length (sample_stream ?cs)"
    and rec: "recording st = concat (map (nth_frame ?n (sample_stream ?cs)) (speech_indices ?labels))"
    by simp_all
  have "\<forall>f\<in>set (map (nth_frame ?n (sample_stream ?cs)) (speech_indices ?labels)).
          int (length f) = int ?n"
  proof
    fix f assume "f \<in> set (map (nth_frame ?n (sample_stream ?cs)) (speech_indices ?labels))"
    then obtain k where k: "k \<in> set (speech_indices ?labels)"
      and f: "f = nth_frame ?n (sample_stream ?cs) k" by auto
    from k have "k < length ?labels" by (rule speech_indices_less)
    then have "(k + 1) * ?n \<le> length ?labels * ?n" by (rule frame_end_le)
    with whole have "(k + 1) * ?n \<le> length (sample_stream ?cs)" by simp
    then show "int (length f) = int ?n" unfolding f by (simp add: nth_frame_length)
  qed
  from length_concat_uniform [OF this] rec
  have "int (length (recording st)) = int ?n * int (length (speech_indices ?labels))" by simp
  moreover have "int ?n = sample_rate * 30 div 1000"
    using assms(2) by (simp add: spec_frame_length_def pos_imp_zdiv_nonneg_iff)
  ultimately show ?thesis using rec whole by simp
qed

text \<open>
  At 16 kHz the frame holds 480 samples; the run of 34 speech frames and 30 non-speech
  frames ends with the 34 speech frames recorded.
\<close>

theorem recording_is_speech_frames_witness:
  "loop 16000 30 True init_state
     (replicate 34 (speech_poll 480) @ replicate 29 (quiet_poll 480 False) @ [quiet_poll 480 False])
    = Break \<lparr>buffer = [], recording = replicate 16320 0, num_silent_frames = 30\<rparr> Silence True
   \<and> (0::int) \<le> 16000
   \<and> spec_frame_length 16000 = 480
   \<and> replicate 16320 0
      = concat (map (nth_frame 480 (sample_stream
          (replicate 34 (speech_poll 480) @ replicate 29 (quiet_poll 480 False) @ [quiet_poll 480 False])))
         (speech_indices (frame_labels 480 0 0
          (replicate 34 (speech_poll 480) @ replicate 29 (quiet_poll 480 False) @ [quiet_poll 480 False]))))
   \<and> length (speech_indices (frame_labels 480 0 0
          (replicate 34 (speech_poll 480) @ replicate 29 (quiet_poll 480 False) @ [quiet_poll 480 False])))
      = 34"
proof -
  let ?ps = "replicate 34 (speech_poll 480) @ replicate 29 (quiet_poll 480 False) @ [quiet_poll 480 False]"
  have brk: "loop 16000 30 True init_state ?ps
    = Break \<lparr>buffer = [], recording = replicate 16320 0, num_silent_frames = 30\<rparr> Silence True"
    using speech_then_30_quiet [of True False] .
  have c: "consumed 16000 30 True init_state ?ps = ?ps"
    using consumed_Break [OF speech_then_29_quiet [of True] last_quiet_frame [of True False], of "[]"]
    by simp
  have n: "spec_frame_length 16000 = 480" by (simp add: spec_frame_length_def)
  have pos: "(0::int) \<le> 16000" by simp
  from recording_is_speech_frames [OF brk pos] brk c n pos show ?thesis
    by simp
qed

section \<open>Properties of the session\<close>

subsection \<open>Actions and the world\<close>

lemma seq_Inr:
  "seq m f w = (Inr v, w') \<longleftrightarrow> (\<exists>u w1. m w = (Inr u, w1) \<and> f u w1 = (Inr v, w'))"
  by (auto simp: seq_def split: prod.splits sum.splits)

lemma seq_Inl:
  "seq m f w = (Inl e, w') \<longleftrightarrow>
     (m w = (Inl e, w') \<or> (\<exists>u w1. m w = (Inr u, w1) \<and> f u w1 = (Inl e, w')))"
  by (auto simp: seq_def split: prod.splits sum.splits)

lemma expr_eq: "expr r w = (x, w') \<longleftrightarrow> x = r \<and> w' = w"
  by (auto simp: expr_def)

lemma put_eq:
  "put item w = (x, w') \<longleftrightarrow> x = Inr () \<and> w' = w\<lparr>status_queue := status_queue w @ [item]\<rparr>"
  by (auto simp: put_def)

lemma seq_world:
  assumes "\<And>w. snd (m w) = w" and "\<And>v w. snd (f v w) = w"
  shows "snd (seq m f w) = w"
  using assms(1) [of w] assms(2)
  by (auto simp: seq_def split: prod.splits sum.splits)

lemma expr_world: "snd (expr r w) = w"
  by (simp add: expr_def)

lemma open_rb_world: "snd (open_rb name w) = w"
  by (simp add: open_rb_def)

lemma if_world:
  assumes "c \<Longrightarrow> snd (a w) = w" and "\<not> c \<Longrightarrow> snd (b w) = w"
  shows "snd ((if c then a else b) w) = w"
  using assms by simp

lemma dispatch_world: "snd (dispatch en config local_model name w) = w"
  unfolding dispatch_def
  by (rule seq_world expr_world open_rb_world if_world)+

lemma dispatch_eq: "dispatch en config local_model name w = (x, w') \<Longrightarrow> w' = w"
  using dispatch_world [of en config local_model name w] by simp

lemma save_wav_Inr:
  "save_wav en audio_data w = (Inr name, w') \<Longrightarrow>
     tempfile_name en = Inr name \<and>
     w' = w\<lparr>files := (name, audio_data) # filter (\<lambda>f. fst f \<noteq> name) (files w)\<rparr>"
  by (auto simp: save_wav_def split: sum.splits option.splits)

lemma remove_file_Inr:
  "remove_file en name w = (Inr u, w') \<Longrightarrow>
     w' = w\<lparr>files := filter (\<lambda>f. fst f \<noteq> name) (files w)\<rparr>"
  by (auto simp: remove_file_def split: option.splits if_splits)

lemma transcribe_Inr:
  assumes "transcribe en config local_model audio_data w = (Inr text, w')"
  shows "\<exists>name. tempfile_name en = Inr name \<and>
           w' = w\<lparr>status_queue := status_queue w
                      @ [(''transcribing'', ''Transcribing...''), (''idle'', [])],
                    files := filter (\<lambda>f. fst f \<noteq> name) (files w)\<rparr>"
proof -
  from assms obtain name w1 result w4 w5 r w7 where
    s: "save_wav en audio_data w = (Inr name, w1)"
    and d: "dispatch en config local_model name
              (w1\<lparr>status_queue := status_queue w1 @ [(''transcribing'', ''Transcribing...'')]\<rparr>)
            = (Inr result, w4)"
    and r: "remove_file en name w4 = (Inr (), w5)"
    and f: "(if truthy r then expr (bind (py_strip r) (\<lambda>s. process_transcription (str_lower_beyond en) s config))
             else expr (Inr []))
              (w5\<lparr>status_queue := status_queue w5 @ [(''idle'', [])]\<rparr>) = (Inr text, w')"
    unfolding transcribe_def by (auto simp: seq_Inr expr_eq put_eq)
  from f have w': "w' = w5\<lparr>status_queue := status_queue w5 @ [(''idle'', [])]\<rparr>"
    by (auto simp: expr_eq split: if_splits)
  from save_wav_Inr [OF s] dispatch_eq [OF d] remove_file_Inr [OF r] w'
  show ?thesis by auto
qed

lemma settings_falsy:
  "\<not> truthy config \<Longrightarrow> settings config = Inr (PNone, PInt 16000, PInt 900)"
  by (simp add: settings_def)

lemma print_if_falsy: "\<not> truthy config \<Longrightarrow> \<exists>e. print_if config arg = Inl e"
  by (cases config) (auto simp: print_if_def)

lemma capture_falsy:
  "\<not> truthy config \<Longrightarrow> \<exists>e. capture en config (PInt 16000) thr rt = Raise e"
proof -
  assume f: "\<not> truthy config"
  show ?thesis
  proof (cases "stream_open en")
    case (Some e)
    then show ?thesis by (simp add: capture_def)
  next
    case None
    show ?thesis
    proof (cases "query_devices en")
      case (Inl e)
      with None show ?thesis by (simp add: capture_def)
    next
      case (Inr device_info)
      from print_if_falsy [OF f] obtain e where
        "print_if config (subscript device_info ''name'') = Inl e" by blast
      with None Inr show ?thesis by (simp add: capture_def)
    qed
  qed
qed

lemma example_capture:
  "capture (example_env response) (example_config sd use_api pr) (PInt 16000) 30 rt
     = Break \<lparr>buffer = [], recording = replicate 16320 0, num_silent_frames = 30\<rparr> Silence rt"
  by (simp add: capture_def example_env_def example_config_def print_if_def speech_then_30_quiet)

lemma example_settings:
  "settings (example_config sd use_api pr) = Inr (PNone, PInt 16000, sd)"
  by (simp add: settings_def example_config_def)

subsection \<open>The example session\<close>

lemma example_try_body:
  "try_body (example_env response) (example_config sd use_api pr) local_model True
      (PInt 16000) 30 w
     = (case transcribe (example_env response) (example_config sd use_api pr) local_model
               (replicate 16320 0) (w\<lparr>thread_stopped := True\<rparr>) of
          (r, w') \<Rightarrow> (Some r, w'))"
  by (simp add: try_body_def example_capture)

lemma example_transcribe_api_error:
  "transcribe (example_env (Inl e)) (example_config sd True False) False (replicate 16320 0) w
     = (Inl e,
        w\<lparr>files := (''/tmp/tmpk3v9x2.wav'', replicate 16320 0)
                      # filter (\<lambda>f. fst f \<noteq> ''/tmp/tmpk3v9x2.wav'') (files w),
          status_queue := status_queue w @ [(''transcribing'', ''Transcribing...'')]\<rparr>)"
  by (simp add: transcribe_def seq_def expr_def put_def print_if_def save_wav_def dispatch_def
      open_rb_def example_env_def example_config_def)

lemma example_transcribe_no_text:
  "transcribe (example_env (Inr (PDict []))) (example_config sd True pr) False (replicate 16320 0) w
     = (if pr then Inl AttributeError else Inr [],
        w\<lparr>files := filter (\<lambda>f. fst f \<noteq> ''/tmp/tmpk3v9x2.wav'') (files w),
          status_queue := status_queue w @ (''transcribing'', ''Transcribing...'')
                            # (if pr then [] else [(''idle'', [])])\<rparr>)"
  by (simp add: transcribe_def seq_def expr_def put_def print_if_def save_wav_def dispatch_def
      open_rb_def remove_file_def example_env_def example_config_def)

lemma example_transcribe_text:
  "transcribe (example_env (Inr (PDict [(''text'', PStr (text_of ''Hello there.''))])))
      (example_config sd True False) False (replicate 16320 0) w
     = (Inr (text_of ''Hello there.''),
        w\<lparr>files := filter (\<lambda>f. fst f \<noteq> ''/tmp/tmpk3v9x2.wav'') (files w),
          status_queue := status_queue w
                            @ [(''transcribing'', ''Transcribing...''), (''idle'', [])]\<rparr>)"
  by (simp add: transcribe_def seq_def expr_def put_def print_if_def save_wav_def dispatch_def
      open_rb_def remove_file_def example_env_def example_config_def process_transcription_def
      strip_def is_space_def text_of_def)

subsection \<open>Where an exception comes from\<close>

lemma raises_only_seq:
  assumes "raises_only P m" and "\<And>v. raises_only P (f v)"
  shows "raises_only P (seq m f)"
  using assms unfolding raises_only_def seq_Inl by blast

lemma raises_only_expr:
  assumes "\<And>e. r = Inl e \<Longrightarrow> P e"
  shows "raises_only P (expr r)"
  using assms by (auto simp: raises_only_def expr_eq)

lemma raises_only_put: "raises_only P (put item)"
  by (auto simp: raises_only_def put_eq)

lemma raises_only_if:
  assumes "c \<Longrightarrow> raises_only P a" and "\<not> c \<Longrightarrow> raises_only P b"
  shows "raises_only P (if c then a else b)"
  using assms by simp

lemma subscript_exn: "subscript v k = Inl e \<Longrightarrow> is_exception e"
  by (cases v) (auto split: option.splits)

lemma py_get_exn: "py_get v k = Inl e \<Longrightarrow> is_exception e"
  by (cases v) (auto split: option.splits)

lemma as_int_exn: "as_int v = Inl e \<Longrightarrow> is_exception e"
  by (cases v) auto

lemma py_strip_exn: "py_strip v = Inl e \<Longrightarrow> is_exception e"
  by (cases v) auto

lemma read_var_exn: "read_var v = Inl e \<Longrightarrow> is_exception e"
  by (cases v) auto

lemma bind_Inl: "bind r f = Inl e \<longleftrightarrow> r = Inl e \<or> (\<exists>v. r = Inr v \<and> f v = Inl e)"
  by (cases r) auto

lemma print_if_exn:
  assumes "print_if config arg = Inl e" and "\<And>x. arg = Inl x \<Longrightarrow> is_exception x"
  shows "is_exception e"
  using assms by (auto simp: print_if_def bind_Inl dest: subscript_exn split: if_splits)

lemma print_if_value_exn: "print_if config (Inr v) = Inl e \<Longrightarrow> is_exception e"
  using print_if_exn [of config "Inr v" e] by simp

lemma print_if_strip_exn:
  "print_if config (bind (read_var r) py_strip) = Inl e \<Longrightarrow> is_exception e"
  using print_if_exn [of config "bind (read_var r) py_strip" e]
  by (auto simp: bind_Inl dest: read_var_exn py_strip_exn)

lemma process_transcription_exn:
  "process_transcription lower_beyond t config = Inl e \<Longrightarrow> is_exception e"
  by (auto simp: process_transcription_def bind_Inl Let_def dest: subscript_exn split: if_splits)

lemma create_local_model_exn:
  "create_local_model en config = Inl e \<Longrightarrow> is_exception e \<or> model_create en = Some e"
  by (auto simp: create_local_model_def bind_Inl dest: subscript_exn split: option.splits)

lemma dispatch_raises:
  "raises_only (\<lambda>e. is_exception e \<or> collaborator_raises en e)
     (dispatch en config local_model name)"
  unfolding dispatch_def
  apply (intro raises_only_seq raises_only_if raises_only_expr)
  apply (auto simp: collaborator_raises_def open_rb_def raises_only_def
      dest: subscript_exn py_get_exn print_if_value_exn create_local_model_exn)
  done

lemma save_wav_raises:
  "raises_only (\<lambda>e. is_exception e \<or> collaborator_raises en e) (save_wav en audio_data)"
  by (auto simp: raises_only_def save_wav_def collaborator_raises_def
      split: sum.splits option.splits)

lemma remove_file_raises:
  "raises_only (\<lambda>e. is_exception e \<or> collaborator_raises en e) (remove_file en name)"
  by (auto simp: raises_only_def remove_file_def collaborator_raises_def
      split: option.splits if_splits)

lemma transcribe_raises:
  "raises_only (\<lambda>e. is_exception e \<or> collaborator_raises en e)
     (transcribe en config local_model audio_data)"
  unfolding transcribe_def
  apply (intro raises_only_seq raises_only_if raises_only_expr raises_only_put
      dispatch_raises save_wav_raises remove_file_raises)
  apply (auto simp: bind_Inl
      dest: print_if_value_exn print_if_strip_exn read_var_exn py_strip_exn
        process_transcription_exn)
  done

lemma loop_Raise:
  "loop sr thr rt st ps = Raise e \<Longrightarrow> list_ex (\<lambda>p. vad_is_speech p = Inl e) ps"
proof (induction ps arbitrary: st)
  case Nil
  then show ?case by simp
next
  case (Cons a ps)
  show ?case
  proof (cases "step sr thr rt st a")
    case (Continue st1)
    with Cons show ?thesis by simp
  next
    case (Break st1 r b)
    with Cons.prems show ?thesis by simp
  next
    case (Raise x)
    with Cons.prems have "x = e" by simp
    with Raise have "vad_is_speech a = Inl e"
      by (auto simp: step_def Let_def stop_check_def split: if_splits sum.splits)
    then show ?thesis by simp
  qed
qed

lemma capture_Raise:
  assumes "capture en config sample_rate thr rt = Raise e"
  shows "is_exception e \<or> collaborator_raises en e"
proof (cases "as_int sample_rate")
  case (Inl x)
  with assms show ?thesis by (auto simp: capture_def dest: as_int_exn)
next
  case (Inr sr)
  show ?thesis
  proof (cases "stream_open en")
    case (Some x)
    with Inr assms show ?thesis by (auto simp: capture_def collaborator_raises_def)
  next
    case None
    show ?thesis
    proof (cases "query_devices en")
      case (Inl x)
      with Inr None assms show ?thesis by (auto simp: capture_def collaborator_raises_def)
    next
      case device: (Inr device_info)
      show ?thesis
      proof (cases "print_if config (subscript device_info ''name'')")
        case (Inl x)
        with Inr None device assms have "x = e" by (simp add: capture_def)
        with Inl print_if_exn [of config "subscript device_info ''name''" e] subscript_exn
        show ?thesis by blast
      next
        case printed: (Inr u)
        with Inr None device assms have "loop sr thr rt init_state (polls en) = Raise e"
          by (simp add: capture_def)
        from loop_Raise [OF this] show ?thesis by (simp add: collaborator_raises_def)
      qed
    qed
  qed
qed

lemma try_body_raises:
  assumes "try_body en config local_model recording_thread sample_rate thr w = (Some (Inl e), w1)"
  shows "is_exception e \<or> collaborator_raises en e"
proof (cases "capture en config sample_rate thr recording_thread")
  case (Continue st)
  with assms show ?thesis by (simp add: try_body_def)
next
  case (Break st r b)
  with assms have "transcribe en config local_model (recording st)
      (w\<lparr>thread_stopped := thread_stopped w \<or> b\<rparr>) = (Inl e, w1)"
    by (auto simp: try_body_def split: prod.splits)
  with transcribe_raises [of en config local_model "recording st"] show ?thesis
    by (auto simp: raises_only_def)
next
  case (Raise x)
  with assms have "x = e" by (simp add: try_body_def)
  with Raise capture_Raise show ?thesis by blast
qed

subsection \<open>The temporary file\<close>

text \<open>
  When the session returns a transcript, \<^verbatim>\<open>os.remove\<close> on line 126 has run: the temporary
  file is not on disk any more.
\<close>

lemma temp_file_removed_on_success:
  assumes "record_and_transcribe en config local_model recording_thread w
             = (Some (Returned (PStr text)), w')"
  shows "\<exists>name. tempfile_name en = Inr name \<and> name \<notin> fst ` set (files w')"
proof -
  from assms obtain st audio_data w0 where
    "transcribe en config local_model audio_data w0 = (Inr text, w')"
    by (auto simp: record_and_transcribe_def try_body_def
        split: sum.splits prod.splits option.splits loop_status.splits if_splits)
  from transcribe_Inr [OF this] show ?thesis by auto
qed

text \<open>
  Claim C5 does not hold on the path of an exception. The file is created with
  \<^verbatim>\<open>delete=False\<close> and removed on line 126 only; when the remote call raises, the handler is
  reached with the file still on disk, and nothing deletes it.
\<close>

theorem temp_file_left_after_fault:
  "record_and_transcribe (example_env (Inl (OtherError ''APIConnectionError'')))
     (example_config (PInt 900) True False) False True empty_world
   = (Some (Returned PNone),
      \<lparr>status_queue = [(''transcribing'', ''Transcribing...''), (''error'', ''Error'')],
       files = [(''/tmp/tmpk3v9x2.wav'', replicate 16320 0)],
       thread_stopped = True, traceback_printed = True\<rparr>)"
  by (simp add: record_and_transcribe_def example_settings num_silence_frames_900
      example_try_body example_transcribe_api_error empty_world_def)

subsection \<open>A response without text\<close>

text \<open>
  Claim C8 does not hold when \<^verbatim>\<open>print_to_terminal\<close> is on. A response without a
  \<^verbatim>\<open>text\<close> field makes \<^verbatim>\<open>result\<close> \<^verbatim>\<open>None\<close>; line 132 calls \<^verbatim>\<open>result.strip()\<close> before
  line 135 tests \<^verbatim>\<open>result\<close>, so the session ends with the error status and returns
  \<^verbatim>\<open>None\<close>. With printing off the same response gives the empty string.
\<close>

theorem absent_text_fails_when_printing:
  "record_and_transcribe (example_env (Inr (PDict [])))
     (example_config (PInt 900) True True) False True empty_world
   = (Some (Returned PNone),
      \<lparr>status_queue = [(''transcribing'', ''Transcribing...''), (''error'', ''Error'')],
       files = [], thread_stopped = True, traceback_printed = True\<rparr>)
   \<and> record_and_transcribe (example_env (Inr (PDict [])))
     (example_config (PInt 900) True False) False True empty_world
   = (Some (Returned (PStr [])),
      \<lparr>status_queue = [(''transcribing'', ''Transcribing...''), (''idle'', [])],
       files = [], thread_stopped = True, traceback_printed = False\<rparr>)"
  by (simp add: record_and_transcribe_def example_settings num_silence_frames_900
      example_try_body example_transcribe_no_text empty_world_def)

subsection \<open>Exceptions and outcomes\<close>

text \<open>
  Claim C7, as the code has it. An exception that leaves the body of \<^verbatim>\<open>try\<close> and is a
  subclass of \<^verbatim>\<open>Exception\<close> is caught: the stack trace is printed,
  \<^verbatim>\<open>('error', 'Error')\<close> is put on the status queue and the function returns \<^verbatim>\<open>None\<close>.
  A call that ends does so in one of four ways: it returns a string and the last status is
  \<^verbatim>\<open>idle\<close>; it returns \<^verbatim>\<open>None\<close> and the last status is \<^verbatim>\<open>error\<close>; an exception raised
  by the reads of the configuration before \<^verbatim>\<open>try\<close> (lines 38 to 49) leaves the function,
  and the world is as it was; or an exception that is not a subclass of \<^verbatim>\<open>Exception\<close>,
  raised by a collaborator inside \<^verbatim>\<open>try\<close>, leaves the function. An exception of the
  configuration reads always leaves the function, and an exception that is a subclass of
  \<^verbatim>\<open>Exception\<close> leaves it in no other way.
\<close>

theorem exceptions_caught_at_session_boundary:
  "(settings config = Inr (sound_device, sample_rate, silence_duration)
      \<and> as_int silence_duration = Inr sd
      \<and> try_body en config local_model recording_thread sample_rate (num_silence_frames_of sd) w
          = (Some (Inl e), w1)
      \<and> is_exception e
    \<longrightarrow> record_and_transcribe en config local_model recording_thread w
          = (Some (Returned PNone),
             w1\<lparr>traceback_printed := True,
                status_queue := status_queue w1 @ [(''error'', ''Error'')]\<rparr>))
   \<and> (record_and_transcribe en config local_model recording_thread w = (Some out, w')
    \<longrightarrow> (\<exists>transcript. out = Returned (PStr transcript)
              \<and> last (status_queue w') = (''idle'', [])
              \<and> traceback_printed w' = traceback_printed w)
        \<or> (out = Returned PNone \<and> last (status_queue w') = (''error'', ''Error'')
              \<and> traceback_printed w')
        \<or> (\<exists>x. out = Propagated x \<and> w' = w
              \<and> (settings config = Inl x
                  \<or> (\<exists>a b c. settings config = Inr (a, b, c) \<and> as_int c = Inl x)))
        \<or> (\<exists>x. out = Propagated x \<and> is_exception x = False \<and> collaborator_raises en x))
   \<and> (settings config = Inl x
    \<longrightarrow> record_and_transcribe en config local_model recording_thread w
          = (Some (Propagated x), w))
   \<and> (settings config = Inr (sound_device, sample_rate, silence_duration)
      \<and> as_int silence_duration = Inl x
    \<longrightarrow> record_and_transcribe en config local_model recording_thread w
          = (Some (Propagated x), w))
   \<and> (record_and_transcribe en config local_model recording_thread w = (Some (Propagated x), w')
      \<and> is_exception x
    \<longrightarrow> w' = w
        \<and> (settings config = Inl x
            \<or> (\<exists>a b c. settings config = Inr (a, b, c) \<and> as_int c = Inl x)))"
proof -
  have caught: "record_and_transcribe en config local_model recording_thread w
          = (Some (Returned PNone),
             w1\<lparr>traceback_printed := True,
                status_queue := status_queue w1 @ [(''error'', ''Error'')]\<rparr>)"
    if "settings config = Inr (sound_device, sample_rate, silence_duration)
      \<and> as_int silence_duration = Inr sd
      \<and> try_body en config local_model recording_thread sample_rate (num_silence_frames_of sd) w
          = (Some (Inl e), w1)
      \<and> is_exception e"
    using that by (simp add: record_and_transcribe_def)
  have outcomes: "(\<exists>transcript. out = Returned (PStr transcript)
              \<and> last (status_queue w') = (''idle'', [])
              \<and> traceback_printed w' = traceback_printed w)
        \<or> (out = Returned PNone \<and> last (status_queue w') = (''error'', ''Error'')
              \<and> traceback_printed w')
        \<or> (\<exists>x. out = Propagated x \<and> w' = w
              \<and> (settings config = Inl x
                  \<or> (\<exists>a b c. settings config = Inr (a, b, c) \<and> as_int c = Inl x)))
        \<or> (\<exists>x. out = Propagated x \<and> is_exception x = False \<and> collaborator_raises en x)"
    if r: "record_and_transcribe en config local_model recording_thread w = (Some out, w')"
    for out w'
  proof (cases "settings config")
    case (Inl y)
    with r show ?thesis by (auto simp: record_and_transcribe_def)
  next
    case (Inr t)
    then obtain a b c where t: "settings config = Inr (a, b, c)" by (cases t) auto
    show ?thesis
    proof (cases "as_int c")
      case (Inl y)
      with r t show ?thesis by (auto simp: record_and_transcribe_def)
    next
      case (Inr d)
      obtain res w2 where
        tb: "try_body en config local_model recording_thread b (num_silence_frames_of d) w = (res, w2)"
        by (cases "try_body en config local_model recording_thread b (num_silence_frames_of d) w")
      show ?thesis
      proof (cases res)
        case None
        with r t Inr tb show ?thesis by (simp add: record_and_transcribe_def)
      next
        case (Some v)
        show ?thesis
        proof (cases v)
          case (Inl y)
          show ?thesis
          proof (cases "is_exception y")
            case True
            with r t Inr tb Some Inl show ?thesis by (auto simp: record_and_transcribe_def)
          next
            case False
            from tb Some Inl try_body_raises [of en config local_model recording_thread b
                "num_silence_frames_of d" w y w2] False
            have "collaborator_raises en y" by simp
            with False r t Inr tb Some Inl show ?thesis
              by (auto simp: record_and_transcribe_def)
          qed
        next
          case (Inr transcript)
          with r t \<open>as_int c = Inr d\<close> tb Some
          have o: "out = Returned (PStr transcript)" "w' = w2"
            by (auto simp: record_and_transcribe_def)
          from tb Some Inr obtain audio_data stopped where
            "transcribe en config local_model audio_data
               (w\<lparr>thread_stopped := thread_stopped w \<or> stopped\<rparr>) = (Inr transcript, w2)"
            by (auto simp: try_body_def split: loop_status.splits prod.splits)
          from transcribe_Inr [OF this] o show ?thesis by auto
        qed
      qed
    qed
  qed
  have p1: "record_and_transcribe en config local_model recording_thread w
          = (Some (Propagated x), w)" if "settings config = Inl x"
    using that by (simp add: record_and_transcribe_def)
  have p2: "record_and_transcribe en config local_model recording_thread w
          = (Some (Propagated x), w)"
    if "settings config = Inr (sound_device, sample_rate, silence_duration)
      \<and> as_int silence_duration = Inl x"
    using that by (simp add: record_and_transcribe_def)
  have only: "w' = w
        \<and> (settings config = Inl x
            \<or> (\<exists>a b c. settings config = Inr (a, b, c) \<and> as_int c = Inl x))"
    if "record_and_transcribe en config local_model recording_thread w = (Some (Propagated x), w')
      \<and> is_exception x"
    using outcomes [of "Propagated x" w'] that by auto
  from caught outcomes [of out w'] p1 p2 only show ?thesis by blast
qed

text \<open>
  The remote call times out: the exception is caught, and the world is the one the body of
  \<^verbatim>\<open>try\<close> has left, with the trace and the error status added.
\<close>

theorem exceptions_caught_at_session_boundary_witness:
  "settings (example_config (PInt 900) True False) = Inr (PNone, PInt 16000, PInt 900)
   \<and> as_int (PInt 900) = Inr 900
   \<and> try_body (example_env (Inl (OtherError ''Timeout''))) (example_config (PInt 900) True False)
       False True (PInt 16000) (num_silence_frames_of 900) empty_world
      = (Some (Inl (OtherError ''Timeout'')),
         \<lparr>status_queue = [(''transcribing'', ''Transcribing...'')],
          files = [(''/tmp/tmpk3v9x2.wav'', replicate 16320 0)],
          thread_stopped = True, traceback_printed = False\<rparr>)
   \<and> is_exception (OtherError ''Timeout'')
   \<and> record_and_transcribe (example_env (Inl (OtherError ''Timeout'')))
       (example_config (PInt 900) True False) False True empty_world
      = (Some (Returned PNone),
         \<lparr>status_queue = [(''transcribing'', ''Transcribing...''), (''error'', ''Error'')],
          files = [(''/tmp/tmpk3v9x2.wav'', replicate 16320 0)],
          thread_stopped = True, traceback_printed = True\<rparr>)"
proof -
  let ?w1 = "\<lparr>status_queue = [(''transcribing'', ''Transcribing...'')],
          files = [(''/tmp/tmpk3v9x2.wav'', replicate 16320 0 :: sample list)],
          thread_stopped = True, traceback_printed = False\<rparr>"
  have s: "settings (example_config (PInt 900) True False) = Inr (PNone, PInt 16000, PInt 900)"
    by (rule example_settings)
  have a: "as_int (PInt 900) = Inr 900" by simp
  have t: "try_body (example_env (Inl (OtherError ''Timeout''))) (example_config (PInt 900) True False)
       False True (PInt 16000) (num_silence_frames_of 900) empty_world
      = (Some (Inl (OtherError ''Timeout'')), ?w1)"
    by (simp add: num_silence_frames_900 example_try_body example_transcribe_api_error
        empty_world_def)
  have i: "is_exception (OtherError ''Timeout'')" by simp
  from exceptions_caught_at_session_boundary [of "example_config (PInt 900) True False"
      PNone "PInt 16000" "PInt 900" 900 "example_env (Inl (OtherError ''Timeout''))" False True
      empty_world "OtherError ''Timeout''" ?w1] s a t i
  have caught: "record_and_transcribe (example_env (Inl (OtherError ''Timeout'')))
       (example_config (PInt 900) True False) False True empty_world
      = (Some (Returned PNone),
         ?w1\<lparr>traceback_printed := True,
              status_queue := status_queue ?w1 @ [(''error'', ''Error'')]\<rparr>)"
    by blast
  from s a t i caught show ?thesis by simp
qed

text \<open>
  Two calls that end in none of the three ways of the claim. A configuration whose silence
  duration is \<^verbatim>\<open>None\<close>: line 49 raises \<^verbatim>\<open>TypeError\<close> outside \<^verbatim>\<open>try\<close>. And a
  \<^verbatim>\<open>KeyboardInterrupt\<close> that arrives while the first frame is classified: line 137 does
  not catch it. Both times the caller gets the exception; no status is put, nothing is
  returned.
\<close>

theorem uncaught_exception_counterexample:
  "record_and_transcribe (example_env (Inr (PDict [(''text'', PStr (text_of ''Hello there.''))])))
     (example_config PNone True False) False True empty_world
   = (Some (Propagated TypeError), empty_world)
   \<and> record_and_transcribe
       ((example_env (Inr (PDict [(''text'', PStr (text_of ''Hello there.''))])))
          \<lparr>polls := [\<lparr>pushed = replicate 480 0, vad_is_speech = Inl KeyboardInterrupt,
                       cancel_flag_71 = False, cancel_flag_74 = False\<rparr>]\<rparr>)
       (example_config (PInt 900) True False) False True empty_world
   = (Some (Propagated KeyboardInterrupt), empty_world)"
proof
  show "record_and_transcribe (example_env (Inr (PDict [(''text'', PStr (text_of ''Hello there.''))])))
     (example_config PNone True False) False True empty_world
   = (Some (Propagated TypeError), empty_world)"
    by (simp add: record_and_transcribe_def example_settings)
next
  let ?en = "(example_env (Inr (PDict [(''text'', PStr (text_of ''Hello there.''))])))
          \<lparr>polls := [\<lparr>pushed = replicate 480 0, vad_is_speech = Inl KeyboardInterrupt,
                       cancel_flag_71 = False, cancel_flag_74 = False\<rparr>]\<rparr>"
  have "capture ?en (example_config (PInt 900) True False) (PInt 16000) 30 True
          = Raise KeyboardInterrupt"
    by (simp add: capture_def example_env_def example_config_def print_if_def step_def
        frame_size_16000 init_state_def)
  then show "record_and_transcribe ?en (example_config (PInt 900) True False) False True empty_world
   = (Some (Propagated KeyboardInterrupt), empty_world)"
    by (simp add: record_and_transcribe_def example_settings num_silence_frames_900 try_body_def)
qed

subsection \<open>A falsy configuration\<close>

lemma print_if_falsy_exn:
  "\<not> truthy config \<Longrightarrow> \<exists>e. print_if config arg = Inl e \<and> is_exception e"
  by (cases config) (auto simp: print_if_def)

text \<open>
  Claim C10. With a falsy configuration (\<^verbatim>\<open>None\<close>, an empty dictionary) the defaults of
  lines 38 to 42 are taken, and then either a collaborator raises or line 55 does, because
  \<^verbatim>\<open>config['print_to_terminal']\<close> cannot be read. So the session ends with the error status
  and returns \<^verbatim>\<open>None\<close>, unless opening the stream or looking up the device raises an
  exception that is not a subclass of \<^verbatim>\<open>Exception\<close>, which then leaves the function; a
  transcript is returned in no case, whatever the world provides.
\<close>

theorem falsy_config_never_transcribes:
  assumes "\<not> truthy config"
  shows "(record_and_transcribe en config local_model recording_thread w
           = (Some (Returned PNone),
              w\<lparr>traceback_printed := True,
                status_queue := status_queue w @ [(''error'', ''Error'')]\<rparr>)
          \<or> (\<exists>e. (stream_open en = Some e \<or> query_devices en = Inl e)
                \<and> is_exception e = False
                \<and> record_and_transcribe en config local_model recording_thread w
                    = (Some (Propagated e), w)))
         \<and> (\<forall>transcript w'.
               record_and_transcribe en config local_model recording_thread w
                 \<noteq> (Some (Returned (PStr transcript)), w'))"
proof -
  have "\<exists>e. capture en config (PInt 16000) (num_silence_frames_of 900) recording_thread = Raise e
          \<and> (is_exception e \<or> stream_open en = Some e \<or> query_devices en = Inl e)"
  proof (cases "stream_open en")
    case (Some e)
    then show ?thesis by (simp add: capture_def)
  next
    case None
    show ?thesis
    proof (cases "query_devices en")
      case (Inl e)
      with None show ?thesis by (simp add: capture_def)
    next
      case (Inr device_info)
      from print_if_falsy_exn [OF assms] obtain e where
        "print_if config (subscript device_info ''name'') = Inl e" "is_exception e" by blast
      with None Inr show ?thesis by (simp add: capture_def)
    qed
  qed
  then obtain e where
    c: "capture en config (PInt 16000) (num_silence_frames_of 900) recording_thread = Raise e"
    and o: "is_exception e \<or> stream_open en = Some e \<or> query_devices en = Inl e"
    by blast
  have r: "record_and_transcribe en config local_model recording_thread w
      = (if is_exception e
         then (Some (Returned PNone),
               w\<lparr>traceback_printed := True,
                 status_queue := status_queue w @ [(''error'', ''Error'')]\<rparr>)
         else (Some (Propagated e), w))"
    using c by (simp add: record_and_transcribe_def settings_falsy [OF assms] try_body_def)
  show ?thesis
  proof (cases "is_exception e")
    case True
    with r show ?thesis by simp
  next
    case False
    with r o show ?thesis by auto
  qed
qed

text \<open>The configuration is \<^verbatim>\<open>None\<close> and every collaborator is well: line 55 raises.\<close>

theorem falsy_config_never_transcribes_witness:
  "\<not> truthy PNone
   \<and> record_and_transcribe (example_env (Inr (PDict [(''text'', PStr (text_of ''Hello there.''))])))
       PNone False True empty_world
      = (Some (Returned PNone),
         \<lparr>status_queue = [(''error'', ''Error'')], files = [], thread_stopped = False,
          traceback_printed = True\<rparr>)"
proof -
  let ?en = "example_env (Inr (PDict [(''text'', PStr (text_of ''Hello there.''))]))"
  have s: "stream_open ?en = None" "\<And>e. query_devices ?en \<noteq> Inl e"
    by (simp_all add: example_env_def)
  from falsy_config_never_transcribes [of PNone ?en False True empty_world] s
  have "record_and_transcribe ?en PNone False True empty_world
           = (Some (Returned PNone),
              empty_world\<lparr>traceback_printed := True,
                status_queue := status_queue empty_world @ [(''error'', ''Error'')]\<rparr>)"
    by auto
  then show ?thesis by (simp add: empty_world_def)
qed

end
